theory Spec2Isabelle
  imports Main
begin

section \<open>JavaScript strings\<close>

text \<open>
  A JavaScript string is the sequence of its UTF-16 code units. A code unit is modelled
  as a natural number (below 65536 for a real string; the functions below are total on
  every list of naturals). A literal of the source is written \<open>js ''...''\<close>.
\<close>

type_synonym jsstring = "nat list"

abbreviation js :: "string \<Rightarrow> jsstring" where
  "js s \<equiv> map of_char s"

text \<open>
  \<open>String.prototype.trim\<close> removes, at both ends, the code units of the ECMAScript
  productions WhiteSpace and LineTerminator: TAB, LF, VT, FF, CR, SP, NBSP, U+1680,
  U+2000 to U+200A, U+2028, U+2029, U+202F, U+205F, U+3000 and U+FEFF.
\<close>

definition isWhiteSpace :: "nat \<Rightarrow> bool" where
  "isWhiteSpace c =
     (c = 9 \<or> c = 10 \<or> c = 11 \<or> c = 12 \<or> c = 13 \<or> c = 32 \<or> c = 160 \<or> c = 5760
      \<or> (8192 \<le> c \<and> c \<le> 8202) \<or> c = 8232 \<or> c = 8233 \<or> c = 8239 \<or> c = 8287
      \<or> c = 12288 \<or> c = 65279)"

definition trim :: "jsstring \<Rightarrow> jsstring" where
  "trim s = rev (dropWhile isWhiteSpace (rev (dropWhile isWhiteSpace s)))"

text \<open>\<open>Array.prototype.join\<close> on an array of strings.\<close>

fun join :: "jsstring \<Rightarrow> jsstring list \<Rightarrow> jsstring" where
  "join sep [] = []"
| "join sep [x] = x"
| "join sep (x # y # ys) = x @ sep @ join sep (y # ys)"

text \<open>
  \<open>raw.split(/\r?\n/)\<close>: the string is cut at every LF, and a CR that stands right
  before the LF goes with it. A CR anywhere else stays in its line. The result is never
  empty: the empty string splits into one empty line.
\<close>

definition consLine :: "nat \<Rightarrow> jsstring list \<Rightarrow> jsstring list" where
  "consLine c ls = (case ls of [] \<Rightarrow> [[c]] | l # rest \<Rightarrow> (c # l) # rest)"

fun splitLines :: "jsstring \<Rightarrow> jsstring list" where
  "splitLines [] = [[]]"
| "splitLines (c # cs) =
     (if c = 10 then [] # splitLines cs
      else if c = 13 then
        (case cs of
           [] \<Rightarrow> consLine c (splitLines cs)
         | d # ds \<Rightarrow> if d = 10 then [] # splitLines ds else consLine c (splitLines cs))
      else consLine c (splitLines cs))"

text \<open>
  \<open>String.prototype.includes\<close>: the needle occurs as a contiguous run of code units.
\<close>

fun includes_str :: "jsstring \<Rightarrow> jsstring \<Rightarrow> bool" where
  "includes_str [] needle = (needle = [])"
| "includes_str (c # cs) needle =
     (take (length needle) (c # cs) = needle \<or> includes_str cs needle)"

text \<open>
  \<open>Array.prototype.findIndex\<close>, with \<open>None\<close> for the result \<open>-1\<close>.
\<close>

fun findIndex :: "('a \<Rightarrow> bool) \<Rightarrow> 'a list \<Rightarrow> nat option" where
  "findIndex p [] = None"
| "findIndex p (x # xs) =
     (if p x then Some 0 else map_option Suc (findIndex p xs))"

section \<open>benchmarkConfig.ts\<close>

text \<open>\<open>slugify\<close>: \<open>model.replace(/[/:]/g, "_")\<close>, every slash and colon becomes an underscore.\<close>

definition slugify :: "jsstring \<Rightarrow> jsstring" where
  "slugify m =
     map (\<lambda>c. if c = of_char CHR ''/'' \<or> c = of_char CHR '':'' then of_char CHR ''_'' else c) m"

section \<open>JavaScript values\<close>

text \<open>
  The values that \<open>JSON.parse\<close> and \<open>res.json()\<close> produce, and \<open>undefined\<close> for a
  property that is not there. A number is represented by its canonical text, the
  result of \<open>Number.prototype.toString\<close> (so that 0 and -0 are both \<open>''0''\<close>): the
  program only tests numbers for truth and turns them into strings. An object is the
  list of its own properties; a read takes the first entry of a name.
\<close>

datatype jsval =
    JUndefined
  | JNull
  | JBool bool
  | JNum jsstring
  | JStr jsstring
  | JArr "jsval list"
  | JObj "(jsstring \<times> jsval) list"

definition isNullish :: "jsval \<Rightarrow> bool" where
  "isNullish v = (v = JUndefined \<or> v = JNull)"

text \<open>ToBoolean: what \<open>c && ...\<close> and \<open>!model\<close> test.\<close>

fun truthy :: "jsval \<Rightarrow> bool" where
  "truthy JUndefined = False"
| "truthy JNull = False"
| "truthy (JBool b) = b"
| "truthy (JNum n) = (n \<noteq> js ''0'' \<and> n \<noteq> js ''NaN'')"
| "truthy (JStr s) = (s \<noteq> [])"
| "truthy (JArr xs) = True"
| "truthy (JObj kvs) = True"

text \<open>
  ToString, as a template literal and \<open>Array.prototype.join\<close> apply it; \<open>None\<close> when
  the conversion throws a TypeError. An object goes through its \<open>toString\<close>: the one of
  \<open>Object.prototype\<close> gives \<open>[object Object]\<close>, but an own property \<open>toString\<close> of a
  parsed object is never a function, and then the conversion throws. An array is
  its elements joined with commas, where \<open>null\<close> and \<open>undefined\<close> elements give the empty
  string; it throws when an element does.
\<close>

fun ToString :: "jsval \<Rightarrow> jsstring option" where
  "ToString JUndefined = Some (js ''undefined'')"
| "ToString JNull = Some (js ''null'')"
| "ToString (JBool b) = Some (if b then js ''true'' else js ''false'')"
| "ToString (JNum n) = Some n"
| "ToString (JStr s) = Some s"
| "ToString (JArr xs) =
     map_option (join (js '',''))
       (those (map (\<lambda>x. if x = JUndefined \<or> x = JNull then Some [] else ToString x) xs))"
| "ToString (JObj kvs) =
     (if map_of kvs (js ''toString'') = None then Some (js ''[object Object]'') else None)"

text \<open>
  \<open>Array.prototype.join\<close> on an array of values: every element is converted; \<open>None\<close>
  when a conversion throws.
\<close>

definition joinValues :: "jsstring \<Rightarrow> jsval list \<Rightarrow> jsstring option" where
  "joinValues sep vs =
     map_option (join sep)
       (those (map (\<lambda>x. if x = JUndefined \<or> x = JNull then Some [] else ToString x) vs))"

text \<open>
  Reading a property of a value that is neither \<open>null\<close> nor \<open>undefined\<close>. Only an object
  has the properties the program reads (choices, message, content, text, solverModel,
  judgeModel): no built-in prototype defines one of these names.
\<close>

fun lookupProp :: "jsval \<Rightarrow> jsstring \<Rightarrow> jsval" where
  "lookupProp (JObj kvs) name = (case map_of kvs name of Some v \<Rightarrow> v | None \<Rightarrow> JUndefined)"
| "lookupProp v name = JUndefined"

text \<open>\<open>v?.name\<close>\<close>

definition optProp :: "jsval \<Rightarrow> jsstring \<Rightarrow> jsval" where
  "optProp v name = (if isNullish v then JUndefined else lookupProp v name)"

text \<open>
  \<open>v?.[0]\<close>: the first element of an array, the first code unit of a string, the
  property \<open>"0"\<close> of an object.
\<close>

fun optIndex0 :: "jsval \<Rightarrow> jsval" where
  "optIndex0 (JArr xs) = (case xs of [] \<Rightarrow> JUndefined | x # rest \<Rightarrow> x)"
| "optIndex0 (JStr s) = (case s of [] \<Rightarrow> JUndefined | c # rest \<Rightarrow> JStr [c])"
| "optIndex0 (JObj kvs) = lookupProp (JObj kvs) (js ''0'')"
| "optIndex0 v = JUndefined"

section \<open>Failures\<close>

text \<open>
  What a unit of work can throw: the two errors \<open>callOpenRouter\<close> constructs, a
  TypeError of the engine (for a property read on \<open>null\<close>, or for a value that cannot
  be converted to a string; with the engine's message), and a rejection by the
  runtime (the network is down, the body is not JSON, a file cannot be written),
  which carries the text \<open>String(err)\<close> gives for it.
\<close>

datatype error =
    RequestFailure jsstring nat jsstring jsstring
  | ShapeMismatch jsstring
  | TypeError jsstring
  | Rejected jsstring

fun natToString :: "nat \<Rightarrow> jsstring" where
  "natToString n = (if n < 10 then [48 + n] else natToString (n div 10) @ [48 + n mod 10])"

declare natToString.simps [simp del]

text \<open>\<open>err.message\<close> and \<open>String(err)\<close>.\<close>

fun errorMessage :: "error \<Rightarrow> jsstring" where
  "errorMessage (RequestFailure model st stText body) =
     js ''OpenRouter error for '' @ model @ js '': '' @ natToString st @ js '' '' @ stText
       @ [10] @ body"
| "errorMessage (ShapeMismatch model) = js ''Unexpected response shape for '' @ model"
| "errorMessage (TypeError msg) = msg"
| "errorMessage (Rejected s) = s"

fun String_error :: "error \<Rightarrow> jsstring" where
  "String_error (TypeError msg) = js ''TypeError: '' @ msg"
| "String_error (Rejected s) = s"
| "String_error e = js ''Error: '' @ errorMessage e"

section \<open>The runtime\<close>

text \<open>
  What the program takes from the JavaScript runtime and from the network, and does
  not define itself. The case mappings of \<open>toUpperCase\<close> and \<open>toLowerCase\<close> are the
  Unicode tables of the engine. \<open>JSON_parse\<close> returns the parsed value, or the message
  of the SyntaxError it throws. \<open>fetch\<close> is the remote endpoint: its answer may depend
  on the request and on how many requests were made before (the first argument), so
  the endpoint need not be deterministic. \<open>writeCritiques\<close> tells whether the write of
  the critiques file in the \<open>try\<close> block of a judge turn is rejected, and with which
  error text; its first argument is the number of requests sent so far, which tells
  the turns apart, its second the content to write. Every theorem holds for any
  choice of these parameters.
\<close>

record request =
  req_model :: jsstring
  req_max_tokens :: nat
  req_prompt :: jsstring

text \<open>
  A response: its status line, what \<open>res.text()\<close> resolves to, and what \<open>res.json()\<close>
  resolves to (or the text of the error it rejects with).
\<close>

record response =
  status :: nat
  statusText :: jsstring
  res_text :: jsstring
  res_json :: "jsstring + jsval"

definition ok :: "response \<Rightarrow> bool" where
  "ok res = (200 \<le> status res \<and> status res \<le> 299)"

record runtime =
  toUpperCase :: "jsstring \<Rightarrow> jsstring"
  toLowerCase :: "jsstring \<Rightarrow> jsstring"
  JSON_parse :: "jsstring \<Rightarrow> jsstring + jsval"
  JSON_stringify :: "jsval \<Rightarrow> jsstring"
  nullReadMessage :: jsstring
  notPrimitiveMessage :: jsstring
  metaJson :: jsstring
  fetch :: "nat \<Rightarrow> request \<Rightarrow> jsstring + response"
  writeCritiques :: "nat \<Rightarrow> jsstring \<Rightarrow> jsstring option"

text \<open>
  A small concrete runtime, for evaluating the program on examples: the case mappings
  on the ASCII letters (every other code unit left as it is), a parser that knows the
  texts the examples use, a serializer that writes a fixed text, an endpoint that is
  given with each example, and a disk that accepts every write.
\<close>

definition asciiUpper :: "jsstring \<Rightarrow> jsstring" where
  "asciiUpper s = map (\<lambda>c. if 97 \<le> c \<and> c \<le> 122 then c - 32 else c) s"

definition asciiLower :: "jsstring \<Rightarrow> jsstring" where
  "asciiLower s = map (\<lambda>c. if 65 \<le> c \<and> c \<le> 90 then c + 32 else c) s"

definition quoted :: "jsstring \<Rightarrow> jsstring" where
  "quoted s = [34] @ s @ [34]"

text \<open>The text \<open>[17,{"solverModel":"a/b","judgeModel":"c/d"}]\<close>.\<close>

definition mixedCritiquesText :: jsstring where
  "mixedCritiquesText =
     js ''[17,{'' @ quoted (js ''solverModel'') @ js '':'' @ quoted (js ''a/b'') @ js '',''
       @ quoted (js ''judgeModel'') @ js '':'' @ quoted (js ''c/d'') @ js ''}]''"

text \<open>
  The text \<open>[{"solverModel":"a/b","judgeModel":"c/d"},{"solverModel":{"toString":1},"judgeModel":"x"}]\<close>.
\<close>

definition unprintableCritiquesText :: jsstring where
  "unprintableCritiquesText =
     js ''[{'' @ quoted (js ''solverModel'') @ js '':'' @ quoted (js ''a/b'') @ js '',''
       @ quoted (js ''judgeModel'') @ js '':'' @ quoted (js ''c/d'') @ js ''},{''
       @ quoted (js ''solverModel'') @ js '':{'' @ quoted (js ''toString'') @ js '':1},''
       @ quoted (js ''judgeModel'') @ js '':'' @ quoted (js ''x'') @ js ''}]''"

definition exampleParse :: "jsstring \<Rightarrow> jsstring + jsval" where
  "exampleParse s =
     (if s = js ''[]'' then Inr (JArr [])
      else if s = js ''{}'' then Inr (JObj [])
      else if s = js ''[null]'' then Inr (JArr [JNull])
      else if s = mixedCritiquesText then
        Inr (JArr [JNum (js ''17''),
                   JObj [(js ''solverModel'', JStr (js ''a/b'')), (js ''judgeModel'', JStr (js ''c/d''))]])
      else if s = unprintableCritiquesText then
        Inr (JArr [JObj [(js ''solverModel'', JStr (js ''a/b'')), (js ''judgeModel'', JStr (js ''c/d''))],
                   JObj [(js ''solverModel'', JObj [(js ''toString'', JNum (js ''1''))]),
                         (js ''judgeModel'', JStr (js ''x''))]])
      else Inl (js ''JSON Parse error''))"

definition exampleRuntime :: "(nat \<Rightarrow> request \<Rightarrow> jsstring + response) \<Rightarrow> runtime" where
  "exampleRuntime net =
     \<lparr> toUpperCase = asciiUpper, toLowerCase = asciiLower,
       JSON_parse = exampleParse, JSON_stringify = (\<lambda>v. js ''[]''),
       nullReadMessage = js ''null is not an object'',
       notPrimitiveMessage = js ''No default value'',
       metaJson = js ''{}'', fetch = net, writeCritiques = (\<lambda>n content. None) \<rparr>"

definition asciiRuntime :: runtime where
  "asciiRuntime = exampleRuntime (\<lambda>n req. Inl (js ''TypeError: fetch failed''))"

section \<open>benchmarkUtils.ts: parseVerdict\<close>

record verdictResult =
  verdict :: jsstring
  explanation :: jsstring

definition parseVerdict :: "runtime \<Rightarrow> jsstring \<Rightarrow> verdictResult" where
  "parseVerdict rt raw =
     (let lines = map trim (splitLines raw) in
      case findIndex (\<lambda>l. length l > 0) lines of
        None \<Rightarrow> \<lparr> verdict = js ''ERROR'', explanation = js ''Empty response'' \<rparr>
      | Some idx \<Rightarrow>
          let first = toUpperCase rt (lines ! idx);
              v = (if first = js ''YES'' then js ''YES''
                   else if first = js ''NO'' then js ''NO'' else js ''NO'');
              e = trim (join (js [CHR 0x0A]) (drop (idx + 1) lines))
          in \<lparr> verdict = v, explanation = e \<rparr>)"

text \<open>
  The reference definition, following the words of the specification: split into
  lines, trim each line, find the first non-empty line; none gives ERROR with
  "Empty response"; otherwise the verdict is affirmative exactly when that line equals
  the token YES up to case, negative for any other line; the explanation is the
  trimmed lines after it, joined with newlines and trimmed.
  Two strings are equal up to case when their upper-case forms are equal.
\<close>

fun firstNonEmpty :: "jsstring list \<Rightarrow> (jsstring \<times> jsstring list) option" where
  "firstNonEmpty [] = None"
| "firstNonEmpty (l # ls) = (if l = [] then firstNonEmpty ls else Some (l, ls))"

definition equalsIgnoreCase :: "runtime \<Rightarrow> jsstring \<Rightarrow> jsstring \<Rightarrow> bool" where
  "equalsIgnoreCase rt a b = (toUpperCase rt a = toUpperCase rt b)"

definition parseVerdict_reference :: "runtime \<Rightarrow> jsstring \<Rightarrow> verdictResult" where
  "parseVerdict_reference rt raw =
     (case firstNonEmpty (map trim (splitLines raw)) of
        None \<Rightarrow> \<lparr> verdict = js ''ERROR'', explanation = js ''Empty response'' \<rparr>
      | Some (line, rest) \<Rightarrow>
          \<lparr> verdict = (if equalsIgnoreCase rt line (js ''YES'') then js ''YES'' else js ''NO''),
            explanation = trim (join (js [CHR 0x0A]) rest) \<rparr>)"

section \<open>benchmarkUtils.ts: callOpenRouter\<close>

text \<open>
  \<open>part.text ?? ""\<close> for one element of the content array. The read \<open>part.text\<close> throws
  the engine's TypeError when the element is \<open>null\<close>.
\<close>

definition partText :: "runtime \<Rightarrow> jsval \<Rightarrow> error + jsval" where
  "partText rt part =
     (if isNullish part then Inl (TypeError (nullReadMessage rt))
      else let t = lookupProp part (js ''text'') in
           Inr (if isNullish t then JStr [] else t))"

text \<open>\<open>content.map(...)\<close>: the first element that throws ends the map.\<close>

fun mapParts :: "runtime \<Rightarrow> jsval list \<Rightarrow> error + jsval list" where
  "mapParts rt [] = Inr []"
| "mapParts rt (p # ps) =
     (case partText rt p of
        Inl e \<Rightarrow> Inl e
      | Inr t \<Rightarrow> (case mapParts rt ps of Inl e \<Rightarrow> Inl e | Inr ts \<Rightarrow> Inr (t # ts)))"

text \<open>
  \<open>json.choices?.[0]?.message?.content\<close>, for a body that is not \<open>null\<close>.
\<close>

definition contentOf :: "jsval \<Rightarrow> jsval" where
  "contentOf json =
     optProp (optProp (optIndex0 (lookupProp json (js ''choices''))) (js ''message''))
       (js ''content'')"

text \<open>
  The part of \<open>callOpenRouter\<close> after \<open>res.json()\<close>: from the parsed body to the text
  returned. \<open>json.choices\<close> is a plain read and throws on a \<open>null\<close> body; the rest of
  the chain is optional. \<open>join\<close> converts the texts of the fragments to strings and
  throws when one cannot be converted.
\<close>

definition extractContent :: "runtime \<Rightarrow> jsstring \<Rightarrow> jsval \<Rightarrow> error + jsstring" where
  "extractContent rt m json =
     (if isNullish json then Inl (TypeError (nullReadMessage rt))
      else
        let content = contentOf json
        in case content of
             JArr parts \<Rightarrow>
               (case mapParts rt parts of
                  Inl e \<Rightarrow> Inl e
                | Inr ts \<Rightarrow>
                    (case joinValues [10] ts of
                       None \<Rightarrow> Inl (TypeError (notPrimitiveMessage rt))
                     | Some str \<Rightarrow> Inr str))
           | JStr str \<Rightarrow> Inr str
           | _ \<Rightarrow> Inl (ShapeMismatch m))"

text \<open>
  \<open>callOpenRouter(model, prompt, options)\<close>. The list \<open>sent\<close> holds the requests sent
  so far; the call sends one request, the next in line, and returns the outcome with
  the list one request longer. The URL and the headers are the same for every request
  and are left out of \<open>request\<close>.
\<close>

definition callOpenRouter ::
  "runtime \<Rightarrow> request list \<Rightarrow> jsstring \<Rightarrow> jsstring \<Rightarrow> nat option
     \<Rightarrow> (error + jsstring) \<times> request list" where
  "callOpenRouter rt sent m prompt options =
     (let maxTokens = (case options of None \<Rightarrow> 4096 | Some n \<Rightarrow> n);
          req = \<lparr> req_model = m, req_max_tokens = maxTokens, req_prompt = prompt \<rparr>;
          sent' = sent @ [req]
      in case fetch rt (length sent) req of
           Inl e \<Rightarrow> (Inl (Rejected e), sent')
         | Inr res \<Rightarrow>
             if \<not> ok res then
               (Inl (RequestFailure m (status res) (statusText res) (res_text res)), sent')
             else
               (case res_json res of
                  Inl e \<Rightarrow> (Inl (Rejected e), sent')
                | Inr json \<Rightarrow> (extractContent rt m json, sent')))"

section \<open>run-benchmark.ts: the data\<close>

record solutionRecord =
  sol_model :: jsstring
  sol_slug :: jsstring
  sol_html :: jsstring

text \<open>
  A Critique of the program, as the JavaScript object it is. The array \<open>critiques\<close>
  holds values of any shape: \<open>critiques = parsed\<close> adopts what the file held.
\<close>

definition mkCritique ::
  "jsstring \<Rightarrow> jsstring \<Rightarrow> jsstring \<Rightarrow> jsstring \<Rightarrow> jsstring \<Rightarrow> jsval" where
  "mkCritique solver slug judge v e =
     JObj [(js ''solverModel'', JStr solver), (js ''solverSlug'', JStr slug),
           (js ''judgeModel'', JStr judge), (js ''verdict'', JStr v),
           (js ''explanation'', JStr e)]"

text \<open>
  The object \<open>solutions\<close>: its own properties in the order they were created.
  An assignment to an existing key keeps its place. The key \<open>__proto__\<close> names the
  prototype accessor, so that assignment creates no property.
  \<open>Object.entries\<close> lists the keys that are array indices first (canonical decimal
  numerals below 4294967295), in ascending order, then the other keys in creation
  order.
\<close>

definition setProp :: "(jsstring \<times> 'v) list \<Rightarrow> jsstring \<Rightarrow> 'v \<Rightarrow> (jsstring \<times> 'v) list" where
  "setProp obj k v =
     (if k = js ''__proto__'' then obj
      else if k \<in> fst ` set obj then map (\<lambda>(k', v'). if k' = k then (k', v) else (k', v')) obj
      else obj @ [(k, v)])"

definition isDigit :: "nat \<Rightarrow> bool" where
  "isDigit c = (48 \<le> c \<and> c \<le> 57)"

definition digitsValue :: "jsstring \<Rightarrow> nat" where
  "digitsValue s = foldl (\<lambda>a c. 10 * a + (c - 48)) 0 s"

definition isArrayIndex :: "jsstring \<Rightarrow> bool" where
  "isArrayIndex s =
     (s \<noteq> [] \<and> list_all isDigit s \<and> (s = [48] \<or> hd s \<noteq> 48) \<and> digitsValue s < 4294967295)"

definition Object_entries :: "(jsstring \<times> 'v) list \<Rightarrow> (jsstring \<times> 'v) list" where
  "Object_entries obj =
     sort_key (\<lambda>kv. digitsValue (fst kv)) (filter (\<lambda>kv. isArrayIndex (fst kv)) obj)
       @ filter (\<lambda>kv. \<not> isArrayIndex (fst kv)) obj"

text \<open>
  The lines the program logs, by level and content. The numbering \<open>[i/n]\<close>, the
  timestamps and the stack traces are left out.
\<close>

datatype level = LOG | WARN | ERROR

datatype message =
    RunStarted
  | WroteMeta
  | LoadedExisting nat
  | CouldNotParse jsstring
  | SolverPhase
  | ExistingInvalid jsstring
  | SkippingSolution jsstring
  | GeneratingSolution jsstring
  | ResponseLength nat
  | EmptyResponse jsstring
  | VeryShortResponse nat jsstring
  | FullResponse jsstring
  | ResponsePreview jsstring
  | NoHtmlTag jsstring
  | ErrorGenerating jsstring error
  | JudgePhase
  | SkippingPair jsstring
  | Judging jsstring jsstring
  | ErrorJudging jsstring jsstring error
  | Done nat

text \<open>
  The state of a run: the files on disk (path to content), the requests sent, the
  log, and the three variables of \<open>main\<close>. File operations are taken to succeed,
  but for the write of the critiques file in the \<open>try\<close> block of a judge turn, whose
  rejection that turn catches itself. A rejection anywhere else ends the process or
  is like a failing call.
\<close>

record state =
  files :: "jsstring \<rightharpoonup> jsstring"
  calls :: "request list"
  logged :: "(level \<times> message) list"
  critiques :: "jsval list"
  donePairs :: "jsstring set"
  solutions :: "(jsstring \<times> solutionRecord) list"

text \<open>
  The configuration of benchmarkConfig.ts. Both loops of \<open>main\<close> run over these lists,
  whatever they hold; the prompt text and the filling of the judge template are
  parameters.
\<close>

record config =
  SOLVER_MODELS :: "jsstring list"
  JUDGE_MODELS :: "jsstring list"
  SOLVER_PROMPT :: jsstring
  buildJudgePrompt :: "jsstring \<Rightarrow> jsstring"

definition MODELS :: "jsstring list" where
  "MODELS =
     [js ''google/gemini-3-pro-preview'', js ''anthropic/claude-sonnet-4.5'',
      js ''openai/gpt-5.1'', js ''anthropic/claude-opus-4.1'', js ''x-ai/grok-4'',
      js ''qwen/qwen3-max'', js ''openai/gpt-5.1-codex'', js ''moonshotai/kimi-k2-thinking'']"

definition critiquesPath :: jsstring where
  "critiquesPath = js ''data/critiques.json''"

definition metaPath :: jsstring where
  "metaPath = js ''data/meta.json''"

text \<open>
  \<open>join("solutions", `${slug}.html`)\<close>: a slug holds no slash, so the joined path is the
  plain concatenation.
\<close>

definition solutionPath :: "jsstring \<Rightarrow> jsstring" where
  "solutionPath m = js ''solutions/'' @ slugify m @ js ''.html''"

definition pairKey :: "jsstring \<Rightarrow> jsstring \<Rightarrow> jsstring" where
  "pairKey solver judge = solver @ js ''|'' @ judge"

definition logTo :: "level \<Rightarrow> message \<Rightarrow> state \<Rightarrow> state" where
  "logTo l m st = st\<lparr> logged := logged st @ [(l, m)] \<rparr>"

section \<open>run-benchmark.ts: loading the critiques\<close>

text \<open>
  One turn of \<open>for (const c of critiques)\<close>: the test \<open>c && c.solverModel && c.judgeModel\<close>
  and the key \<open>`${c.solverModel}|${c.judgeModel}`\<close>, which throws when one of the
  two values cannot be converted to a string.
\<close>

definition loadedKey :: "jsval \<Rightarrow> jsstring option" where
  "loadedKey c =
     (case ToString (lookupProp c (js ''solverModel'')) of
        None \<Rightarrow> None
      | Some solver \<Rightarrow>
          (case ToString (lookupProp c (js ''judgeModel'')) of
             None \<Rightarrow> None
           | Some judge \<Rightarrow> Some (pairKey solver judge)))"

definition indexed :: "jsval \<Rightarrow> bool" where
  "indexed c =
     (truthy c \<and> truthy (lookupProp c (js ''solverModel'')) \<and> truthy (lookupProp c (js ''judgeModel'')))"

text \<open>
  The loop over the parsed array: the keys added so far, and whether the loop ran to
  its end (\<open>True\<close>) or a key threw (\<open>False\<close>).
\<close>

fun indexPairs :: "jsval list \<Rightarrow> jsstring set \<Rightarrow> bool \<times> jsstring set" where
  "indexPairs [] done = (True, done)"
| "indexPairs (c # cs) done =
     (if indexed c then
        (case loadedKey c of
           None \<Rightarrow> (False, done)
         | Some key \<Rightarrow> indexPairs cs (insert key done))
      else indexPairs cs done)"

text \<open>
  The load. The \<open>catch\<close> is entered when \<open>JSON.parse\<close> throws and when a key of the loop
  throws; it logs the warning and empties \<open>critiques\<close>, and leaves in \<open>donePairs\<close> the
  keys the loop had added.
\<close>

definition loadCritiques :: "runtime \<Rightarrow> state \<Rightarrow> state" where
  "loadCritiques rt st =
     (case files st critiquesPath of
        None \<Rightarrow> st
      | Some existing \<Rightarrow>
          (case JSON_parse rt existing of
             Inl msg \<Rightarrow> (logTo WARN (CouldNotParse msg) st)\<lparr> critiques := [] \<rparr>
           | Inr parsed \<Rightarrow>
               (case parsed of
                  JArr xs \<Rightarrow>
                    (case indexPairs xs (donePairs st) of
                       (True, done) \<Rightarrow>
                         logTo LOG (LoadedExisting (length xs))
                           (st\<lparr> critiques := xs, donePairs := done \<rparr>)
                     | (False, done) \<Rightarrow>
                         (logTo WARN (CouldNotParse (notPrimitiveMessage rt))
                            (st\<lparr> donePairs := done \<rparr>))\<lparr> critiques := [] \<rparr>)
                | _ \<Rightarrow> st)))"

section \<open>run-benchmark.ts: the solver phase\<close>

definition responseLog :: "runtime \<Rightarrow> jsstring \<Rightarrow> jsstring \<Rightarrow> (level \<times> message) list" where
  "responseLog rt m html =
     (let responseLength = length html;
          hasHtmlTag = includes_str (toLowerCase rt html) (js ''<html'')
      in [(LOG, ResponseLength responseLength)]
         @ (if responseLength = 0 then [(ERROR, EmptyResponse m), (LOG, FullResponse html)]
            else if responseLength < 100 then
              [(WARN, VeryShortResponse responseLength m), (LOG, FullResponse html)]
            else [(LOG, ResponsePreview (take 500 html))])
         @ (if \<not> hasHtmlTag then [(WARN, NoHtmlTag m)] else []))"

text \<open>The \<open>try\<close> block of the solver loop and its \<open>catch\<close>.\<close>

definition generateSolution :: "runtime \<Rightarrow> config \<Rightarrow> jsstring \<Rightarrow> state \<Rightarrow> state" where
  "generateSolution rt cfg m st =
     (let st1 = logTo LOG (GeneratingSolution m) st;
          r = callOpenRouter rt (calls st1) m (SOLVER_PROMPT cfg) (Some 12000);
          st2 = st1\<lparr> calls := snd r \<rparr>
      in case fst r of
           Inr html \<Rightarrow>
             st2\<lparr> logged := logged st2 @ responseLog rt m html,
                  files := (files st2)(solutionPath m \<mapsto> html),
                  solutions := setProp (solutions st2) m
                    \<lparr> sol_model = m, sol_slug = slugify m, sol_html = html \<rparr> \<rparr>
         | Inl err \<Rightarrow> logTo ERROR (ErrorGenerating m err) st2)"

text \<open>One turn of the solver loop. \<open>if (!model) continue\<close> passes over the empty string.\<close>

definition solverStep :: "runtime \<Rightarrow> config \<Rightarrow> jsstring \<Rightarrow> state \<Rightarrow> state" where
  "solverStep rt cfg m st =
     (if m = [] then st
      else
        (case files st (solutionPath m) of
           None \<Rightarrow> generateSolution rt cfg m st
         | Some html \<Rightarrow>
             let trimmedHtml = trim html in
             if length trimmedHtml = 0 \<or> \<not> includes_str (toLowerCase rt trimmedHtml) (js ''<html'')
             then generateSolution rt cfg m (logTo WARN (ExistingInvalid m) st)
             else logTo LOG (SkippingSolution m)
                    (st\<lparr> solutions := setProp (solutions st) m
                           \<lparr> sol_model = m, sol_slug = slugify m, sol_html = html \<rparr> \<rparr>)))"

definition solverLoop :: "runtime \<Rightarrow> config \<Rightarrow> jsstring list \<Rightarrow> state \<Rightarrow> state" where
  "solverLoop rt cfg ms st = fold (solverStep rt cfg) ms st"

definition solverPhase :: "runtime \<Rightarrow> config \<Rightarrow> state \<Rightarrow> state" where
  "solverPhase rt cfg st = solverLoop rt cfg (SOLVER_MODELS cfg) (logTo LOG SolverPhase st)"

section \<open>run-benchmark.ts: the judge phase\<close>

text \<open>\<open>critiques.push(record); donePairs.add(pairKey)\<close>\<close>

definition pushCritique :: "jsval \<Rightarrow> jsstring \<Rightarrow> state \<Rightarrow> state" where
  "pushCritique record key st =
     st\<lparr> critiques := critiques st @ [record], donePairs := insert key (donePairs st) \<rparr>"

text \<open>\<open>await writeFile(critiquesPath, JSON.stringify(critiques, null, 2), "utf8")\<close>, accepted.\<close>

definition saveCritiques :: "runtime \<Rightarrow> state \<Rightarrow> state" where
  "saveCritiques rt st =
     st\<lparr> files := (files st)(critiquesPath \<mapsto> JSON_stringify rt (JArr (critiques st))) \<rparr>"

text \<open>
  The \<open>catch\<close> of a judge turn: it logs the error, pushes the Critique with verdict
  ERROR and saves the collection. Its write is taken to succeed: were it rejected,
  the process would end.
\<close>

definition catchJudge ::
  "runtime \<Rightarrow> jsstring \<times> solutionRecord \<Rightarrow> jsstring \<Rightarrow> error \<Rightarrow> state \<Rightarrow> state" where
  "catchJudge rt entry judgeModel err st =
     saveCritiques rt
       (pushCritique
          (mkCritique (fst entry) (sol_slug (snd entry)) judgeModel (js ''ERROR'') (String_error err))
          (pairKey (fst entry) judgeModel)
          (logTo ERROR (ErrorJudging (fst entry) judgeModel err) st))"

text \<open>
  One turn of the inner loop, for one solver entry and one judge. In the \<open>try\<close> block
  the call may throw, and so may the write after the push; both land in the \<open>catch\<close>.
  A rejected write leaves the file as it was.
\<close>

definition judgeStep ::
  "runtime \<Rightarrow> config \<Rightarrow> jsstring \<times> solutionRecord \<Rightarrow> jsstring \<Rightarrow> state \<Rightarrow> state" where
  "judgeStep rt cfg entry judgeModel st =
     (let solverModel = fst entry;
          key = pairKey solverModel judgeModel
      in if key \<in> donePairs st then logTo LOG (SkippingPair key) st
         else
           let st1 = logTo LOG (Judging judgeModel solverModel) st;
               r = callOpenRouter rt (calls st1) judgeModel
                     (buildJudgePrompt cfg (sol_html (snd entry))) (Some 4000);
               st2 = st1\<lparr> calls := snd r \<rparr>
           in case fst r of
                Inr judgeRaw \<Rightarrow>
                  let pv = parseVerdict rt judgeRaw;
                      st3 = pushCritique
                              (mkCritique solverModel (sol_slug (snd entry)) judgeModel
                                 (verdict pv) (explanation pv))
                              key st2
                  in (case writeCritiques rt (length (calls st3))
                             (JSON_stringify rt (JArr (critiques st3))) of
                        None \<Rightarrow> saveCritiques rt st3
                      | Some rejection \<Rightarrow> catchJudge rt entry judgeModel (Rejected rejection) st3)
              | Inl err \<Rightarrow> catchJudge rt entry judgeModel err st2)"

text \<open>
  The two nested loops: the outer one over \<open>Object.entries(solutions)\<close>, the inner one
  over the judges.
\<close>

definition judgeSolver :: "runtime \<Rightarrow> config \<Rightarrow> jsstring \<times> solutionRecord \<Rightarrow> state \<Rightarrow> state" where
  "judgeSolver rt cfg entry st = fold (judgeStep rt cfg entry) (JUDGE_MODELS cfg) st"

definition judgePhase :: "runtime \<Rightarrow> config \<Rightarrow> state \<Rightarrow> state" where
  "judgePhase rt cfg st =
     fold (judgeSolver rt cfg) (Object_entries (solutions st)) (logTo LOG JudgePhase st)"

section \<open>run-benchmark.ts: main\<close>

text \<open>
  \<open>main\<close> from the state at process start: it writes the meta file, loads the
  critiques, runs the solver phase and then the judge phase. The creation of the
  directories and of the log file is left out; the log is kept as a list.
\<close>

definition initialState :: "(jsstring \<rightharpoonup> jsstring) \<Rightarrow> state" where
  "initialState fs =
     \<lparr> files = fs, calls = [], logged = [], critiques = [], donePairs = {}, solutions = [] \<rparr>"

definition startRun :: "runtime \<Rightarrow> (jsstring \<rightharpoonup> jsstring) \<Rightarrow> state" where
  "startRun rt fs =
     (let st = logTo LOG RunStarted (initialState fs)
      in logTo LOG WroteMeta (st\<lparr> files := (files st)(metaPath \<mapsto> metaJson rt) \<rparr>))"

definition main :: "runtime \<Rightarrow> config \<Rightarrow> (jsstring \<rightharpoonup> jsstring) \<Rightarrow> state" where
  "main rt cfg fs =
     (let st = judgePhase rt cfg (solverPhase rt cfg (loadCritiques rt (startRun rt fs)))
      in logTo LOG (Done (length (critiques st))) st)"

section \<open>The notions of the specification\<close>

text \<open>
  The membership test for Solutions, in the words of the specification: a file exists
  at the slug-derived path of the model, and its content, trimmed, is not empty and
  holds the marker \<open><html\<close> up to case.
\<close>

definition solutionPresent :: "runtime \<Rightarrow> state \<Rightarrow> jsstring \<Rightarrow> bool" where
  "solutionPresent rt st m =
     (case files st (solutionPath m) of
        None \<Rightarrow> False
      | Some content \<Rightarrow>
          trim content \<noteq> [] \<and> includes_str (toLowerCase rt (trim content)) (js ''<html''))"

text \<open>
  The text a fragment of a content sequence contributes: the empty string when its
  \<open>text\<close> is missing or \<open>null\<close>, else its \<open>text\<close> as a string; \<open>None\<close> when that text
  cannot be converted to a string. \<open>joinFragments\<close> joins the texts with newlines.
\<close>

definition fragmentText :: "jsval \<Rightarrow> jsstring option" where
  "fragmentText part =
     (let t = lookupProp part (js ''text'') in if isNullish t then Some [] else ToString t)"

definition joinFragments :: "jsval list \<Rightarrow> jsstring option" where
  "joinFragments parts = map_option (join [10]) (those (map fragmentText parts))"

text \<open>
  The pairs of the work catalog: an outer loop over the solver entries, an inner loop
  over the judges. \<open>judgeLoop\<close> handles a list of pairs one after the other.
\<close>

definition pairsOf :: "'s list \<Rightarrow> jsstring list \<Rightarrow> ('s \<times> jsstring) list" where
  "pairsOf entries judges = concat (map (\<lambda>entry. map (\<lambda>judge. (entry, judge)) judges) entries)"

definition judgeLoop ::
  "runtime \<Rightarrow> config \<Rightarrow> ((jsstring \<times> solutionRecord) \<times> jsstring) list \<Rightarrow> state \<Rightarrow> state" where
  "judgeLoop rt cfg ps st = fold (\<lambda>p. judgeStep rt cfg (fst p) (snd p)) ps st"

text \<open>
  A turn of the solver loop obtains a Solution when it finds one on disk or the
  completion call returns one. \<open>obtainedOrder\<close> lists the models of the turns that
  obtained one, in the order of the turns.
\<close>

definition callSucceeds :: "runtime \<Rightarrow> config \<Rightarrow> jsstring \<Rightarrow> state \<Rightarrow> bool" where
  "callSucceeds rt cfg m st =
     (case fst (callOpenRouter rt (calls st) m (SOLVER_PROMPT cfg) (Some 12000)) of
        Inl err \<Rightarrow> False
      | Inr content \<Rightarrow> True)"

definition obtainsSolution :: "runtime \<Rightarrow> config \<Rightarrow> jsstring \<Rightarrow> state \<Rightarrow> bool" where
  "obtainsSolution rt cfg m st = (m \<noteq> [] \<and> (solutionPresent rt st m \<or> callSucceeds rt cfg m st))"

fun obtainedOrder :: "runtime \<Rightarrow> config \<Rightarrow> jsstring list \<Rightarrow> state \<Rightarrow> jsstring list" where
  "obtainedOrder rt cfg [] st = []"
| "obtainedOrder rt cfg (m # ms) st =
     (if obtainsSolution rt cfg m st then [m] else []) @ obtainedOrder rt cfg ms (solverStep rt cfg m st)"

definition firstOccurrences :: "'a list \<Rightarrow> 'a list \<Rightarrow> 'a list" where
  "firstOccurrences seen xs = fold (\<lambda>x ks. if x \<in> set ks then ks else ks @ [x]) xs seen"

text \<open>
  A model identifier is plain when it is neither an array index nor \<open>__proto__\<close>: the
  identifiers of the endpoint have the form vendor/name.
\<close>

definition plainKey :: "jsstring \<Rightarrow> bool" where
  "plainKey m = (\<not> isArrayIndex m \<and> m \<noteq> js ''__proto__'')"

text \<open>The Critiques a run appended: what \<open>critiques\<close> holds beyond its first \<open>n\<close> entries.\<close>

definition appended :: "nat \<Rightarrow> state \<Rightarrow> jsval list" where
  "appended n st = drop n (critiques st)"

text \<open>
  A Critique-shaped record is an object whose five fields are strings; a well-formed
  critique file parses to an array of such records.
\<close>

definition isString :: "jsval \<Rightarrow> bool" where
  "isString v = (case v of JStr s \<Rightarrow> True | _ \<Rightarrow> False)"

definition critiqueShaped :: "jsval \<Rightarrow> bool" where
  "critiqueShaped c =
     ((case c of JObj kvs \<Rightarrow> True | _ \<Rightarrow> False)
      \<and> isString (lookupProp c (js ''solverModel'')) \<and> isString (lookupProp c (js ''solverSlug''))
      \<and> isString (lookupProp c (js ''judgeModel'')) \<and> isString (lookupProp c (js ''verdict''))
      \<and> isString (lookupProp c (js ''explanation'')))"

definition wellFormedCritiques :: "jsstring + jsval \<Rightarrow> bool" where
  "wellFormedCritiques parsed =
     (case parsed of
        Inr (JArr xs) \<Rightarrow> list_all critiqueShaped xs
      | _ \<Rightarrow> False)"

text \<open>The request a call sends: the default budget is 4096 tokens.\<close>

definition requestFor :: "jsstring \<Rightarrow> jsstring \<Rightarrow> nat option \<Rightarrow> request" where
  "requestFor m prompt options =
     \<lparr> req_model = m, req_max_tokens = (case options of None \<Rightarrow> 4096 | Some n \<Rightarrow> n),
       req_prompt = prompt \<rparr>"

text \<open>
  The pairs of a list for which the judge loop sends a request: those whose key is
  not in the resume index when their turn comes. A pair's request asks its judge,
  with the prompt built from its solver's Solution.
\<close>

definition keyOfPair :: "(jsstring \<times> solutionRecord) \<times> jsstring \<Rightarrow> jsstring" where
  "keyOfPair p = pairKey (fst (fst p)) (snd p)"

fun judgedPairs ::
  "runtime \<Rightarrow> config \<Rightarrow> ((jsstring \<times> solutionRecord) \<times> jsstring) list \<Rightarrow> state
     \<Rightarrow> ((jsstring \<times> solutionRecord) \<times> jsstring) list" where
  "judgedPairs rt cfg [] st = []"
| "judgedPairs rt cfg (p # ps) st =
     (if keyOfPair p \<in> donePairs st then [] else [p])
       @ judgedPairs rt cfg ps (judgeStep rt cfg (fst p) (snd p) st)"

definition judgeRequest :: "config \<Rightarrow> (jsstring \<times> solutionRecord) \<times> jsstring \<Rightarrow> request" where
  "judgeRequest cfg p =
     requestFor (snd p) (buildJudgePrompt cfg (sol_html (snd (fst p)))) (Some 4000)"

definition isCritiqueOf :: "jsval \<Rightarrow> (jsstring \<times> solutionRecord) \<times> jsstring \<Rightarrow> bool" where
  "isCritiqueOf c p = (\<exists>v x. c = mkCritique (fst (fst p)) (sol_slug (snd (fst p))) (snd p) v x)"

text \<open>The state of \<open>main\<close> after the load, and after the solver phase.\<close>

definition loaded :: "runtime \<Rightarrow> (jsstring \<rightharpoonup> jsstring) \<Rightarrow> state" where
  "loaded rt fs = loadCritiques rt (startRun rt fs)"

definition solved :: "runtime \<Rightarrow> config \<Rightarrow> (jsstring \<rightharpoonup> jsstring) \<Rightarrow> state" where
  "solved rt cfg fs = solverPhase rt cfg (loaded rt fs)"

text \<open>
  The pairs a log shows the judge phase visiting: each turn of the inner loop logs
  either that it skips the pair (with the pair key) or that the judge reviews the
  solver's Solution.
\<close>

fun visitOf :: "level \<times> message \<Rightarrow> jsstring list" where
  "visitOf (l, SkippingPair key) = [key]"
| "visitOf (l, Judging judge solver) = [pairKey solver judge]"
| "visitOf (l, other) = []"

definition visited :: "(level \<times> message) list \<Rightarrow> jsstring list" where
  "visited entries = concat (map visitOf entries)"

section \<open>Example inputs\<close>

text \<open>A chat completion body whose first choice has the given content.\<close>

definition chatBody :: "jsval \<Rightarrow> jsval" where
  "chatBody content =
     JObj [(js ''choices'', JArr [JObj [(js ''message'', JObj [(js ''content'', content)])]])]"

definition okResponse :: "jsval \<Rightarrow> response" where
  "okResponse body =
     \<lparr> status = 200, statusText = js ''OK'', res_text = [], res_json = Inr body \<rparr>"

definition errorResponse :: response where
  "errorResponse =
     \<lparr> status = 500, statusText = js ''Internal Server Error'', res_text = js ''overloaded'',
       res_json = Inl (js ''SyntaxError: JSON Parse error'') \<rparr>"

text \<open>An endpoint that always fails, and one that always answers with the given content.\<close>

definition failingNet :: "nat \<Rightarrow> request \<Rightarrow> jsstring + response" where
  "failingNet n req = Inr errorResponse"

definition answeringNet :: "jsval \<Rightarrow> nat \<Rightarrow> request \<Rightarrow> jsstring + response" where
  "answeringNet content n req = Inr (okResponse (chatBody content))"

text \<open>A configuration with the given model lists, and a run state holding given files.\<close>

definition exampleConfig :: "jsstring list \<Rightarrow> jsstring list \<Rightarrow> config" where
  "exampleConfig solvers judges =
     \<lparr> SOLVER_MODELS = solvers, JUDGE_MODELS = judges, SOLVER_PROMPT = js ''solve'',
       buildJudgePrompt = (\<lambda>html. js ''judge '' @ html) \<rparr>"

definition blankSolutionFile :: "jsstring \<rightharpoonup> jsstring" where
  "blankSolutionFile = [solutionPath (js ''a/b'') \<mapsto> js ''  '']"

text \<open>
  An endpoint that fails for the model c/d and answers every other model with the
  text \<open><html>\<close>; a state with nothing on disk; a state that holds one Solution.
\<close>

definition selectiveNet :: "nat \<Rightarrow> request \<Rightarrow> jsstring + response" where
  "selectiveNet n req =
     (if req_model req = js ''c/d'' then Inr errorResponse
      else Inr (okResponse (chatBody (JStr (js ''<html>'')))))"

definition emptyDisk :: state where
  "emptyDisk = initialState Map.empty"

definition oneSolution :: state where
  "oneSolution =
     emptyDisk\<lparr> solutions :=
       [(js ''a/b'', \<lparr> sol_model = js ''a/b'', sol_slug = js ''a_b'', sol_html = js ''<html>'' \<rparr>)] \<rparr>"

definition resumedDisk :: "jsstring \<rightharpoonup> jsstring" where
  "resumedDisk = [critiquesPath \<mapsto> mixedCritiquesText]"

text \<open>
  A runtime whose disk rejects the write of the critiques file in the \<open>try\<close> block of
  every judge turn.
\<close>

definition rejectingRuntime :: "(nat \<Rightarrow> request \<Rightarrow> jsstring + response) \<Rightarrow> runtime" where
  "rejectingRuntime net =
     (exampleRuntime net)\<lparr> writeCritiques := (\<lambda>n content. Some (js ''Error: EBUSY'')) \<rparr>"

section \<open>Properties of the string helpers\<close>

lemma slugify_char:
  "c \<in> set (slugify m) \<Longrightarrow> c \<noteq> of_char CHR ''/'' \<and> c \<noteq> of_char CHR '':''"
  by (auto simp: slugify_def)

lemma findIndex_firstNonEmpty:
  "(case findIndex (\<lambda>l. length l > 0) ls of
      None \<Rightarrow> firstNonEmpty ls = None
    | Some i \<Rightarrow> i < length ls \<and> firstNonEmpty ls = Some (ls ! i, drop (i + 1) ls))"
  by (induction ls) (auto split: option.splits)

text \<open>
  C10. The slug function is idempotent, and a slug holds no slash and no colon.
\<close>

theorem slugify_idempotent_clean:
  "slugify (slugify m) = slugify m
   \<and> of_char CHR ''/'' \<notin> set (slugify m) \<and> of_char CHR '':'' \<notin> set (slugify m)"
  by (auto simp: slugify_def)

text \<open>
  C3. Whenever upper-casing leaves the token YES as it is (as it does in every
  JavaScript engine), the verdict parser of the source computes what the reference
  definition computes, on every input string.
\<close>

theorem parseVerdict_refines_reference:
  assumes "toUpperCase rt (js ''YES'') = js ''YES''"
  shows "parseVerdict rt raw = parseVerdict_reference rt raw"
proof -
  let ?ls = "map trim (splitLines raw)"
  show ?thesis
  proof (cases "findIndex (\<lambda>l. length l > 0) ?ls")
    case None
    with findIndex_firstNonEmpty [of ?ls] have "firstNonEmpty ?ls = None" by simp
    with None show ?thesis
      by (simp add: parseVerdict_def parseVerdict_reference_def)
  next
    case (Some i)
    with findIndex_firstNonEmpty [of ?ls]
    have "firstNonEmpty ?ls = Some (?ls ! i, drop (i + 1) ?ls)" by simp
    with Some assms show ?thesis
      by (simp add: parseVerdict_def parseVerdict_reference_def equalsIgnoreCase_def Let_def)
  qed
qed

theorem parseVerdict_refines_reference_witness:
  "toUpperCase asciiRuntime (js ''YES'') = js ''YES''
   \<and> parseVerdict asciiRuntime (js ''yes'' @ [10, 10] @ js ''looks correct'')
     = \<lparr> verdict = js ''YES'', explanation = js ''looks correct'' \<rparr>"
proof -
  have h: "toUpperCase asciiRuntime (js ''YES'') = js ''YES''"
    by (simp add: asciiRuntime_def exampleRuntime_def asciiUpper_def)
  have "parseVerdict_reference asciiRuntime (js ''yes'' @ [10, 10] @ js ''looks correct'')
     = \<lparr> verdict = js ''YES'', explanation = js ''looks correct'' \<rparr>"
    by (simp add: parseVerdict_reference_def equalsIgnoreCase_def asciiRuntime_def
        exampleRuntime_def asciiUpper_def trim_def isWhiteSpace_def consLine_def)
  with h parseVerdict_refines_reference [OF h, of "js ''yes'' @ [10, 10] @ js ''looks correct''"]
  show ?thesis by simp
qed

section \<open>Properties of callOpenRouter\<close>

lemma callOpenRouter_sent:
  "snd (callOpenRouter rt sent m prompt options) = sent @ [requestFor m prompt options]"
  by (simp add: callOpenRouter_def requestFor_def Let_def split: sum.splits option.splits)

lemma callOpenRouter_body:
  assumes "fetch rt (length sent) (requestFor m prompt options) = Inr res" "ok res"
    "res_json res = Inr json"
  shows "fst (callOpenRouter rt sent m prompt options) = extractContent rt m json"
  using assms by (simp add: callOpenRouter_def requestFor_def Let_def)

lemma callOpenRouter_status:
  assumes "fetch rt (length sent) (requestFor m prompt options) = Inr res" "\<not> ok res"
  shows "fst (callOpenRouter rt sent m prompt options)
           = Inl (RequestFailure m (status res) (statusText res) (res_text res))"
  using assms by (simp add: callOpenRouter_def requestFor_def Let_def)

lemma mapParts_ok:
  "\<forall>p\<in>set parts. \<not> isNullish p \<Longrightarrow>
   mapParts rt parts
     = Inr (map (\<lambda>p. let t = lookupProp p (js ''text'') in if isNullish t then JStr [] else t) parts)"
  by (induction parts) (auto simp: partText_def Let_def)

text \<open>A fragment that is \<open>null\<close> itself makes the read \<open>part.text\<close> throw.\<close>

lemma partText_null: "partText rt JNull = Inl (TypeError (nullReadMessage rt))"
  by (simp add: partText_def isNullish_def)

lemma mapParts_null:
  "\<exists>p\<in>set parts. isNullish p \<Longrightarrow> mapParts rt parts = Inl (TypeError (nullReadMessage rt))"
proof (induction parts)
  case Nil
  then show ?case by simp
next
  case (Cons a parts)
  show ?case
  proof (cases "isNullish a")
    case True
    then show ?thesis by (simp add: partText_def)
  next
    case False
    with Cons.prems have "\<exists>p\<in>set parts. isNullish p" by auto
    from Cons.IH [OF this] False show ?thesis by (simp add: partText_def Let_def)
  qed
qed

lemma joinValues_texts:
  "joinValues [10]
     (map (\<lambda>p. let t = lookupProp p (js ''text'') in if isNullish t then JStr [] else t) parts)
   = joinFragments parts"
proof -
  have "map (\<lambda>x. if x = JUndefined \<or> x = JNull then Some [] else ToString x)
          (map (\<lambda>p. let t = lookupProp p (js ''text'') in if isNullish t then JStr [] else t) parts)
        = map fragmentText parts"
    by (induction parts) (simp_all add: fragmentText_def Let_def isNullish_def)
  then show ?thesis
    by (simp only: joinValues_def joinFragments_def)
qed

lemma extractContent_null_body:
  "isNullish json \<Longrightarrow> extractContent rt m json = Inl (TypeError (nullReadMessage rt))"
  by (simp add: extractContent_def)

lemma extractContent_string:
  "\<not> isNullish json \<Longrightarrow> contentOf json = JStr s \<Longrightarrow> extractContent rt m json = Inr s"
  by (simp add: extractContent_def)

lemma extractContent_null_fragment:
  assumes "\<not> isNullish json" "contentOf json = JArr parts" "\<exists>p\<in>set parts. isNullish p"
  shows "extractContent rt m json = Inl (TypeError (nullReadMessage rt))"
  using assms by (simp add: extractContent_def mapParts_null)

lemma extractContent_fragments:
  assumes "\<not> isNullish json" "contentOf json = JArr parts" "\<forall>p\<in>set parts. \<not> isNullish p"
  shows "extractContent rt m json
           = (case joinFragments parts of
                None \<Rightarrow> Inl (TypeError (notPrimitiveMessage rt))
              | Some str \<Rightarrow> Inr str)"
  using assms joinValues_texts [of parts]
  by (simp add: extractContent_def mapParts_ok del: map_map)

lemma extractContent_other:
  assumes "\<not> isNullish json" "\<forall>s. contentOf json \<noteq> JStr s" "\<forall>ps. contentOf json \<noteq> JArr ps"
  shows "extractContent rt m json = Inl (ShapeMismatch m)"
  using assms by (cases "contentOf json") (simp_all add: extractContent_def)

text \<open>
  A fragment text that is missing, \<open>null\<close>, a string, a number or a boolean converts to
  a string.
\<close>

lemma fragmentText_plain:
  "isNullish (lookupProp p (js ''text'')) \<Longrightarrow> fragmentText p = Some []"
  "lookupProp p (js ''text'') = JStr s \<Longrightarrow> fragmentText p = Some s"
  "lookupProp p (js ''text'') = JNum n \<Longrightarrow> fragmentText p = Some n"
  by (simp_all add: fragmentText_def Let_def isNullish_def)

lemma joinFragments_Some:
  "\<forall>p\<in>set parts. fragmentText p \<noteq> None \<Longrightarrow>
   joinFragments parts = Some (join [10] (map (\<lambda>p. the (fragmentText p)) parts))"
proof -
  have "\<forall>p\<in>set parts. fragmentText p \<noteq> None \<Longrightarrow>
        those (map fragmentText parts) = Some (map (\<lambda>p. the (fragmentText p)) parts)"
    by (induction parts) auto
  then show "\<forall>p\<in>set parts. fragmentText p \<noteq> None \<Longrightarrow> ?thesis"
    by (simp add: joinFragments_def)
qed

text \<open>
  C7, as the program has it. A completion call sends exactly one request, whatever
  comes back. If the response has a non-success status, the call fails with a
  RequestFailure that carries the status and the raw body. For a success status and
  a parsed body: a \<open>null\<close> body makes the call fail with the TypeError of the engine;
  a string as the content of the first choice is returned as it is; for a sequence
  of fragments the call fails with the TypeError of the engine when a fragment is
  \<open>null\<close> or when the text of a fragment cannot be converted to a string, and
  otherwise returns the texts joined with newlines; for any other content the call
  fails with a ShapeMismatch.
\<close>

theorem callOpenRouter_outcomes:
  "snd (callOpenRouter rt sent m prompt options) = sent @ [requestFor m prompt options]
   \<and> (\<forall>res. fetch rt (length sent) (requestFor m prompt options) = Inr res \<longrightarrow>
        (\<not> ok res \<longrightarrow>
           fst (callOpenRouter rt sent m prompt options)
             = Inl (RequestFailure m (status res) (statusText res) (res_text res)))
        \<and> (\<forall>json. ok res \<and> res_json res = Inr json \<longrightarrow>
             (isNullish json \<longrightarrow>
                fst (callOpenRouter rt sent m prompt options) = Inl (TypeError (nullReadMessage rt)))
             \<and> (\<not> isNullish json \<longrightarrow>
                  (\<forall>s. contentOf json = JStr s \<longrightarrow>
                     fst (callOpenRouter rt sent m prompt options) = Inr s)
                  \<and> (\<forall>parts. contentOf json = JArr parts \<longrightarrow>
                       ((\<exists>p\<in>set parts. isNullish p) \<longrightarrow>
                          fst (callOpenRouter rt sent m prompt options)
                            = Inl (TypeError (nullReadMessage rt)))
                       \<and> ((\<forall>p\<in>set parts. \<not> isNullish p) \<longrightarrow>
                          fst (callOpenRouter rt sent m prompt options)
                            = (case joinFragments parts of
                                 None \<Rightarrow> Inl (TypeError (notPrimitiveMessage rt))
                               | Some str \<Rightarrow> Inr str)))
                  \<and> ((\<forall>s. contentOf json \<noteq> JStr s) \<and> (\<forall>ps. contentOf json \<noteq> JArr ps) \<longrightarrow>
                     fst (callOpenRouter rt sent m prompt options) = Inl (ShapeMismatch m)))))"
proof -
  have body: "fst (callOpenRouter rt sent m prompt options) = extractContent rt m json"
    if "fetch rt (length sent) (requestFor m prompt options) = Inr res" "ok res"
      "res_json res = Inr json" for res json
    using that by (rule callOpenRouter_body)
  have st: "fst (callOpenRouter rt sent m prompt options)
             = Inl (RequestFailure m (status res) (statusText res) (res_text res))"
    if "fetch rt (length sent) (requestFor m prompt options) = Inr res" "\<not> ok res" for res
    using that by (rule callOpenRouter_status)
  show ?thesis
  proof (intro conjI allI impI)
    show "snd (callOpenRouter rt sent m prompt options) = sent @ [requestFor m prompt options]"
      by (rule callOpenRouter_sent)
  qed (use body st in \<open>simp_all add: extractContent_null_body extractContent_string
        extractContent_null_fragment extractContent_fragments extractContent_other\<close>)
qed

theorem callOpenRouter_outcomes_witness:
  "callOpenRouter (exampleRuntime failingNet) [] (js ''a/b'') (js ''hi'') None
     = (Inl (RequestFailure (js ''a/b'') 500 (js ''Internal Server Error'') (js ''overloaded'')),
        [requestFor (js ''a/b'') (js ''hi'') None])
   \<and> callOpenRouter (exampleRuntime (answeringNet (JStr (js ''YES'')))) [] (js ''a/b'') (js ''hi'') None
     = (Inr (js ''YES''), [requestFor (js ''a/b'') (js ''hi'') None])
   \<and> callOpenRouter (exampleRuntime (answeringNet (JNum (js ''7'')))) [] (js ''a/b'') (js ''hi'') None
     = (Inl (ShapeMismatch (js ''a/b'')), [requestFor (js ''a/b'') (js ''hi'') None])"
proof -
  have f: "fetch (exampleRuntime failingNet) (length ([]::request list))
             (requestFor (js ''a/b'') (js ''hi'') None) = Inr errorResponse"
    by (simp add: exampleRuntime_def failingNet_def)
  have nok: "\<not> ok errorResponse"
    by (simp add: ok_def errorResponse_def)
  have g: "fetch (exampleRuntime (answeringNet c)) (length ([]::request list))
             (requestFor (js ''a/b'') (js ''hi'') None) = Inr (okResponse (chatBody c))" for c
    by (simp add: exampleRuntime_def answeringNet_def)
  have okr: "ok (okResponse (chatBody c)) \<and> res_json (okResponse (chatBody c)) = Inr (chatBody c)
             \<and> \<not> isNullish (chatBody c) \<and> contentOf (chatBody c) = c" for c
    by (simp add: ok_def okResponse_def chatBody_def isNullish_def contentOf_def optProp_def)
  note A = callOpenRouter_outcomes [of "exampleRuntime failingNet" "[]" "js ''a/b''" "js ''hi''" None]
  note B = callOpenRouter_outcomes
    [of "exampleRuntime (answeringNet (JStr (js ''YES'')))" "[]" "js ''a/b''" "js ''hi''" None]
  note C = callOpenRouter_outcomes
    [of "exampleRuntime (answeringNet (JNum (js ''7'')))" "[]" "js ''a/b''" "js ''hi''" None]
  from A f nok have 1: "callOpenRouter (exampleRuntime failingNet) [] (js ''a/b'') (js ''hi'') None
     = (Inl (RequestFailure (js ''a/b'') (status errorResponse) (statusText errorResponse)
          (res_text errorResponse)),
        [requestFor (js ''a/b'') (js ''hi'') None])"
    by (metis append_Nil prod.collapse)
  from B g okr have 2: "callOpenRouter (exampleRuntime (answeringNet (JStr (js ''YES'')))) []
       (js ''a/b'') (js ''hi'') None = (Inr (js ''YES''), [requestFor (js ''a/b'') (js ''hi'') None])"
    by (metis append_Nil prod.collapse)
  from C g [of "JNum (js ''7'')"] okr [of "JNum (js ''7'')"]
  have 3: "callOpenRouter (exampleRuntime (answeringNet (JNum (js ''7'')))) []
       (js ''a/b'') (js ''hi'') None
       = (Inl (ShapeMismatch (js ''a/b'')), [requestFor (js ''a/b'') (js ''hi'') None])"
    by (metis append_Nil prod.collapse jsval.distinct)
  from 1 2 3 show ?thesis by (simp add: errorResponse_def)
qed

text \<open>
  C7 as stated fails. The content \<open>[null]\<close> is neither a string nor a sequence of text
  fragments, and a \<open>null\<close> body has no content at all; in both cases the call fails
  with the TypeError of the engine, not with a ShapeMismatch.
\<close>

theorem null_content_is_no_shape_mismatch:
  "fst (callOpenRouter (exampleRuntime (answeringNet (JArr [JNull]))) [] (js ''a/b'') (js ''hi'') None)
     = Inl (TypeError (js ''null is not an object''))
   \<and> fst (callOpenRouter
            (exampleRuntime (\<lambda>n req. Inr (okResponse JNull))) [] (js ''a/b'') (js ''hi'') None)
     = Inl (TypeError (js ''null is not an object''))
   \<and> TypeError (js ''null is not an object'') \<noteq> ShapeMismatch (js ''a/b'')"
  by (simp add: callOpenRouter_def exampleRuntime_def answeringNet_def okResponse_def chatBody_def
      ok_def extractContent_def contentOf_def optProp_def isNullish_def partText_def)

text \<open>
  C9. When the content is a sequence of fragments, none of them \<open>null\<close>, the call
  returns the newline-joined texts of the fragments (and fails only when the text of
  a fragment cannot be converted to a string); a fragment whose \<open>text\<close> is missing (or
  \<open>null\<close>) contributes the empty string, a sequence of such fragments never fails, and
  an empty sequence gives the empty string, not a failure.
\<close>

theorem fragments_without_text:
  assumes "fetch rt (length sent) (requestFor m prompt options) = Inr res" and "ok res"
    and "res_json res = Inr json" and "\<not> isNullish json"
    and "contentOf json = JArr parts" and "\<forall>p\<in>set parts. \<not> isNullish p"
  shows "fst (callOpenRouter rt sent m prompt options)
           = (case joinFragments parts of
                None \<Rightarrow> Inl (TypeError (notPrimitiveMessage rt))
              | Some str \<Rightarrow> Inr str)
    \<and> ((\<forall>p\<in>set parts. fragmentText p \<noteq> None) \<longrightarrow>
          fst (callOpenRouter rt sent m prompt options)
            = Inr (join [10] (map (\<lambda>p. the (fragmentText p)) parts)))
    \<and> (\<forall>p\<in>set parts. isNullish (lookupProp p (js ''text'')) \<longrightarrow> fragmentText p = Some [])
    \<and> ((\<forall>p\<in>set parts. isNullish (lookupProp p (js ''text''))) \<longrightarrow>
          fst (callOpenRouter rt sent m prompt options) = Inr (join [10] (map (\<lambda>p. []) parts)))
    \<and> (parts = [] \<longrightarrow> fst (callOpenRouter rt sent m prompt options) = Inr [])"
proof -
  have call: "fst (callOpenRouter rt sent m prompt options)
           = (case joinFragments parts of
                None \<Rightarrow> Inl (TypeError (notPrimitiveMessage rt))
              | Some str \<Rightarrow> Inr str)"
    using assms by (simp add: callOpenRouter_body extractContent_fragments)
  have conv: "fst (callOpenRouter rt sent m prompt options)
            = Inr (join [10] (map (\<lambda>p. the (fragmentText p)) parts))"
    if "\<forall>p\<in>set parts. fragmentText p \<noteq> None"
    using call joinFragments_Some [OF that] by simp
  have missing: "\<forall>p\<in>set parts. isNullish (lookupProp p (js ''text'')) \<longrightarrow> fragmentText p = Some []"
    by (simp add: fragmentText_plain(1))
  have allmissing: "fst (callOpenRouter rt sent m prompt options) = Inr (join [10] (map (\<lambda>p. []) parts))"
    if a: "\<forall>p\<in>set parts. isNullish (lookupProp p (js ''text''))"
  proof -
    from a missing have s: "\<forall>p\<in>set parts. fragmentText p = Some []" by blast
    then have "\<forall>p\<in>set parts. fragmentText p \<noteq> None" by simp
    from conv [OF this] s show ?thesis by (simp cong: map_cong)
  qed
  have empty: "fst (callOpenRouter rt sent m prompt options) = Inr []" if "parts = []"
    using call that by (simp add: joinFragments_def)
  from call conv missing allmissing empty show ?thesis by blast
qed

section \<open>Properties of the solver loop\<close>

lemma logTo_fields [simp]:
  "files (logTo l msg st) = files st" "calls (logTo l msg st) = calls st"
  "critiques (logTo l msg st) = critiques st" "donePairs (logTo l msg st) = donePairs st"
  "solutions (logTo l msg st) = solutions st" "logged (logTo l msg st) = logged st @ [(l, msg)]"
  by (simp_all add: logTo_def)

lemma generateSolution_calls:
  "calls (generateSolution rt cfg m st) = calls st @ [requestFor m (SOLVER_PROMPT cfg) (Some 12000)]"
  by (simp add: generateSolution_def Let_def callOpenRouter_sent split: sum.splits)

lemma generateSolution_critiques:
  "critiques (generateSolution rt cfg m st) = critiques st"
  "donePairs (generateSolution rt cfg m st) = donePairs st"
  by (simp_all add: generateSolution_def Let_def split: sum.splits)

lemma generateSolution_ok:
  assumes "fst (callOpenRouter rt (calls st) m (SOLVER_PROMPT cfg) (Some 12000)) = Inr html"
  shows "files (generateSolution rt cfg m st) = (files st)(solutionPath m \<mapsto> html)"
    and "solutions (generateSolution rt cfg m st)
          = setProp (solutions st) m \<lparr> sol_model = m, sol_slug = slugify m, sol_html = html \<rparr>"
  using assms by (simp_all add: generateSolution_def Let_def)

lemma generateSolution_failed:
  assumes "fst (callOpenRouter rt (calls st) m (SOLVER_PROMPT cfg) (Some 12000)) = Inl err"
  shows "files (generateSolution rt cfg m st) = files st"
    and "solutions (generateSolution rt cfg m st) = solutions st"
    and "logged (generateSolution rt cfg m st)
          = logged st @ [(LOG, GeneratingSolution m), (ERROR, ErrorGenerating m err)]"
  using assms by (simp_all add: generateSolution_def Let_def)

lemma solverStep_empty: "solverStep rt cfg [] st = st"
  by (simp add: solverStep_def)

lemma solverStep_present:
  assumes "m \<noteq> []" "solutionPresent rt st m"
  shows "calls (solverStep rt cfg m st) = calls st"
    and "files (solverStep rt cfg m st) = files st"
    and "solutions (solverStep rt cfg m st)
          = setProp (solutions st) m
              \<lparr> sol_model = m, sol_slug = slugify m, sol_html = the (files st (solutionPath m)) \<rparr>"
  using assms
  by (auto simp: solverStep_def solutionPresent_def Let_def split: option.splits)

lemma solverStep_absent:
  assumes "m \<noteq> []" "\<not> solutionPresent rt st m"
  shows "solverStep rt cfg m st
           = generateSolution rt cfg m
               (if files st (solutionPath m) = None then st else logTo WARN (ExistingInvalid m) st)"
  using assms
  by (auto simp: solverStep_def solutionPresent_def Let_def split: option.splits)

text \<open>
  C6. For a solver model (not the empty string, which the loop passes over), the turn
  of the solver loop sends no request exactly when the membership test holds: a file
  exists at the slug-derived path, and its trimmed content is not empty and holds
  \<open><html\<close> up to case. When the test holds the files stay as they are. When it fails,
  also for a file that exists and is empty or has no marker, the turn sends one
  request for the model, and the text the call returns replaces the file.
\<close>

theorem solution_membership_test:
  assumes "m \<noteq> []"
  shows "(calls (solverStep rt cfg m st) = calls st \<longleftrightarrow> solutionPresent rt st m)
     \<and> (solutionPresent rt st m \<longrightarrow> files (solverStep rt cfg m st) = files st)
     \<and> (\<not> solutionPresent rt st m \<longrightarrow>
          calls (solverStep rt cfg m st) = calls st @ [requestFor m (SOLVER_PROMPT cfg) (Some 12000)]
          \<and> (\<forall>html. fst (callOpenRouter rt (calls st) m (SOLVER_PROMPT cfg) (Some 12000)) = Inr html
                \<longrightarrow> files (solverStep rt cfg m st) (solutionPath m) = Some html))"
proof (cases "solutionPresent rt st m")
  case True
  with assms show ?thesis by (simp add: solverStep_present)
next
  case False
  define st' where
    "st' = (if files st (solutionPath m) = None then st else logTo WARN (ExistingInvalid m) st)"
  have st': "solverStep rt cfg m st = generateSolution rt cfg m st'" "files st' = files st"
      "calls st' = calls st"
    using solverStep_absent [OF assms False, of cfg] by (simp_all add: st'_def)
  have "calls (solverStep rt cfg m st) = calls st @ [requestFor m (SOLVER_PROMPT cfg) (Some 12000)]"
    using st' by (simp add: generateSolution_calls)
  moreover have "files (solverStep rt cfg m st) (solutionPath m) = Some html"
    if "fst (callOpenRouter rt (calls st) m (SOLVER_PROMPT cfg) (Some 12000)) = Inr html" for html
    using st' that by (simp add: generateSolution_ok)
  ultimately show ?thesis using False by simp
qed

section \<open>Properties of the judge loop\<close>

lemma loadedKey_mkCritique [simp]: "loadedKey (mkCritique s slug j v x) = Some (pairKey s j)"
  by (simp add: loadedKey_def mkCritique_def)

lemma pushCritique_fields [simp]:
  "critiques (pushCritique c k st) = critiques st @ [c]"
  "donePairs (pushCritique c k st) = insert k (donePairs st)"
  "calls (pushCritique c k st) = calls st"
  "solutions (pushCritique c k st) = solutions st"
  "logged (pushCritique c k st) = logged st"
  "files (pushCritique c k st) = files st"
  by (simp_all add: pushCritique_def)

lemma saveCritiques_fields [simp]:
  "critiques (saveCritiques rt st) = critiques st"
  "donePairs (saveCritiques rt st) = donePairs st"
  "calls (saveCritiques rt st) = calls st"
  "solutions (saveCritiques rt st) = solutions st"
  "logged (saveCritiques rt st) = logged st"
  by (simp_all add: saveCritiques_def)

lemma catchJudge_fields [simp]:
  "critiques (catchJudge rt e j err st)
     = critiques st @ [mkCritique (fst e) (sol_slug (snd e)) j (js ''ERROR'') (String_error err)]"
  "donePairs (catchJudge rt e j err st) = insert (pairKey (fst e) j) (donePairs st)"
  "calls (catchJudge rt e j err st) = calls st"
  "solutions (catchJudge rt e j err st) = solutions st"
  "logged (catchJudge rt e j err st) = logged st @ [(ERROR, ErrorJudging (fst e) j err)]"
  by (simp_all add: catchJudge_def)

lemma judgeStep_done:
  "pairKey (fst e) j \<in> donePairs st \<Longrightarrow>
   judgeStep rt cfg e j st = logTo LOG (SkippingPair (pairKey (fst e) j)) st"
  by (simp add: judgeStep_def Let_def)

text \<open>
  A turn for a pair that is not in the resume index sends one request and appends
  one Critique of the pair, or two when the write after the first is rejected.
\<close>

lemma judgeStep_new:
  assumes "pairKey (fst e) j \<notin> donePairs st"
  shows "\<exists>cs. cs \<noteq> [] \<and> (\<forall>c\<in>set cs. isCritiqueOf c (e, j))
            \<and> critiques (judgeStep rt cfg e j st) = critiques st @ cs"
    and "donePairs (judgeStep rt cfg e j st) = insert (pairKey (fst e) j) (donePairs st)"
    and "calls (judgeStep rt cfg e j st) = calls st @ [judgeRequest cfg (e, j)]"
    and "solutions (judgeStep rt cfg e j st) = solutions st"
proof -
  let ?r = "callOpenRouter rt (calls st) j (buildJudgePrompt cfg (sol_html (snd e))) (Some 4000)"
  show "\<exists>cs. cs \<noteq> [] \<and> (\<forall>c\<in>set cs. isCritiqueOf c (e, j))
            \<and> critiques (judgeStep rt cfg e j st) = critiques st @ cs"
  proof (cases "fst ?r")
    case (Inl err)
    with assms have "critiques (judgeStep rt cfg e j st)
        = critiques st @ [mkCritique (fst e) (sol_slug (snd e)) j (js ''ERROR'') (String_error err)]"
      by (simp add: judgeStep_def Let_def)
    then show ?thesis by (auto simp: isCritiqueOf_def)
  next
    case (Inr raw)
    let ?c = "mkCritique (fst e) (sol_slug (snd e)) j (verdict (parseVerdict rt raw))
                (explanation (parseVerdict rt raw))"
    have "critiques (judgeStep rt cfg e j st) = critiques st @ [?c]
        \<or> (\<exists>err. critiques (judgeStep rt cfg e j st)
              = critiques st @ [?c, mkCritique (fst e) (sol_slug (snd e)) j (js ''ERROR'') (String_error err)])"
    proof (cases "writeCritiques rt
                   (length (snd (callOpenRouter rt (calls st) j
                      (buildJudgePrompt cfg (sol_html (snd e))) (Some 4000))))
                   (JSON_stringify rt (JArr (critiques st @ [?c])))")
      case None
      with assms Inr show ?thesis by (simp add: judgeStep_def Let_def)
    next
      case (Some rejection)
      with assms Inr have "critiques (judgeStep rt cfg e j st)
          = critiques st @ [?c, mkCritique (fst e) (sol_slug (snd e)) j (js ''ERROR'')
                                  (String_error (Rejected rejection))]"
        by (simp add: judgeStep_def Let_def)
      then show ?thesis by blast
    qed
    then show ?thesis
    proof
      assume "critiques (judgeStep rt cfg e j st) = critiques st @ [?c]"
      then show ?thesis by (intro exI [of _ "[?c]"]) (auto simp: isCritiqueOf_def)
    next
      assume "\<exists>err. critiques (judgeStep rt cfg e j st)
              = critiques st @ [?c, mkCritique (fst e) (sol_slug (snd e)) j (js ''ERROR'') (String_error err)]"
      then obtain err where "critiques (judgeStep rt cfg e j st)
              = critiques st @ [?c, mkCritique (fst e) (sol_slug (snd e)) j (js ''ERROR'') (String_error err)]"
        by blast
      then show ?thesis
        by (intro exI [of _ "[?c, mkCritique (fst e) (sol_slug (snd e)) j (js ''ERROR'') (String_error err)]"])
          (auto simp: isCritiqueOf_def)
    qed
  qed
  show "donePairs (judgeStep rt cfg e j st) = insert (pairKey (fst e) j) (donePairs st)"
    using assms by (auto simp: judgeStep_def Let_def split: sum.splits option.splits)
  show "calls (judgeStep rt cfg e j st) = calls st @ [judgeRequest cfg (e, j)]"
    using assms
    by (auto simp: judgeStep_def Let_def judgeRequest_def callOpenRouter_sent
        split: sum.splits option.splits)
  show "solutions (judgeStep rt cfg e j st) = solutions st"
    using assms by (auto simp: judgeStep_def Let_def split: sum.splits option.splits)
qed

lemma judgeStep_failed:
  assumes "pairKey (fst e) j \<notin> donePairs st"
    and "fst (callOpenRouter rt (calls st) j (buildJudgePrompt cfg (sol_html (snd e))) (Some 4000))
           = Inl err"
  shows "critiques (judgeStep rt cfg e j st)
           = critiques st @ [mkCritique (fst e) (sol_slug (snd e)) j (js ''ERROR'') (String_error err)]"
  using assms by (simp add: judgeStep_def Let_def)

lemma judgeLoop_Nil [simp]: "judgeLoop rt cfg [] st = st"
  by (simp add: judgeLoop_def)

lemma judgeLoop_Cons [simp]:
  "judgeLoop rt cfg (p # ps) st = judgeLoop rt cfg ps (judgeStep rt cfg (fst p) (snd p) st)"
  by (simp add: judgeLoop_def)

lemma judgeLoop_append:
  "judgeLoop rt cfg (ps @ qs) st = judgeLoop rt cfg qs (judgeLoop rt cfg ps st)"
  by (simp add: judgeLoop_def)

lemma judgeLoop_effect:
  "\<exists>new. critiques (judgeLoop rt cfg ps st) = critiques st @ new
     \<and> (\<forall>c\<in>set new. \<exists>p\<in>set (judgedPairs rt cfg ps st). isCritiqueOf c p)
     \<and> donePairs (judgeLoop rt cfg ps st) = donePairs st \<union> keyOfPair ` set (judgedPairs rt cfg ps st)
     \<and> calls (judgeLoop rt cfg ps st) = calls st @ map (judgeRequest cfg) (judgedPairs rt cfg ps st)
     \<and> solutions (judgeLoop rt cfg ps st) = solutions st"
proof (induction ps arbitrary: st)
  case Nil
  show ?case by simp
next
  case (Cons p ps)
  let ?st = "judgeStep rt cfg (fst p) (snd p) st"
  from Cons.IH [of ?st] obtain new where new:
    "critiques (judgeLoop rt cfg ps ?st) = critiques ?st @ new"
    "\<forall>c\<in>set new. \<exists>p\<in>set (judgedPairs rt cfg ps ?st). isCritiqueOf c p"
    "donePairs (judgeLoop rt cfg ps ?st) = donePairs ?st \<union> keyOfPair ` set (judgedPairs rt cfg ps ?st)"
    "calls (judgeLoop rt cfg ps ?st) = calls ?st @ map (judgeRequest cfg) (judgedPairs rt cfg ps ?st)"
    "solutions (judgeLoop rt cfg ps ?st) = solutions ?st"
    by blast
  show ?case
  proof (cases "keyOfPair p \<in> donePairs st")
    case True
    then have "?st = logTo LOG (SkippingPair (pairKey (fst (fst p)) (snd p))) st"
      unfolding keyOfPair_def by (rule judgeStep_done)
    with new True show ?thesis by auto
  next
    case False
    then have "pairKey (fst (fst p)) (snd p) \<notin> donePairs st"
      by (simp add: keyOfPair_def)
    from judgeStep_new [OF this, of rt cfg] obtain cs where c:
      "\<forall>c\<in>set cs. isCritiqueOf c p" "critiques ?st = critiques st @ cs"
      "donePairs ?st = insert (keyOfPair p) (donePairs st)"
      "calls ?st = calls st @ [judgeRequest cfg p]" "solutions ?st = solutions st"
      by (auto simp: keyOfPair_def)
    with new False show ?thesis
      by (intro exI [of _ "cs @ new"]) auto
  qed
qed

lemma judgedPairs_keys:
  "distinct (map keyOfPair (judgedPairs rt cfg ps st))
   \<and> keyOfPair ` set (judgedPairs rt cfg ps st) \<inter> donePairs st = {}
   \<and> set (judgedPairs rt cfg ps st) \<subseteq> set ps"
proof (induction ps arbitrary: st)
  case Nil
  show ?case by simp
next
  case (Cons p ps)
  let ?st = "judgeStep rt cfg (fst p) (snd p) st"
  note IH = Cons.IH [of ?st]
  show ?case
  proof (cases "keyOfPair p \<in> donePairs st")
    case True
    then have "donePairs ?st = donePairs st" by (simp add: judgeStep_done keyOfPair_def)
    with IH True show ?thesis by auto
  next
    case False
    then have "donePairs ?st = insert (keyOfPair p) (donePairs st)"
      by (simp add: judgeStep_new keyOfPair_def)
    with IH False show ?thesis by auto
  qed
qed

lemma isCritiqueOf_key: "isCritiqueOf c p \<Longrightarrow> loadedKey c = Some (keyOfPair p)"
  by (auto simp: isCritiqueOf_def keyOfPair_def)

lemma isCritiqueOf_fields:
  "isCritiqueOf c p \<Longrightarrow>
   lookupProp c (js ''solverModel'') = JStr (fst (fst p))
   \<and> lookupProp c (js ''judgeModel'') = JStr (snd p)"
  by (auto simp: isCritiqueOf_def mkCritique_def)

text \<open>The nested loops of the judge phase handle the pairs of the catalog one by one.\<close>

lemma judgePhase_flat:
  "judgePhase rt cfg st
     = judgeLoop rt cfg (pairsOf (Object_entries (solutions st)) (JUDGE_MODELS cfg))
         (logTo LOG JudgePhase st)"
proof -
  have "fold (judgeSolver rt cfg) es s
          = fold (\<lambda>p. judgeStep rt cfg (fst p) (snd p)) (pairsOf es (JUDGE_MODELS cfg)) s" for es s
    by (induction es arbitrary: s) (simp_all add: pairsOf_def judgeSolver_def fold_map comp_def)
  then show ?thesis by (simp add: judgePhase_def judgeLoop_def)
qed

section \<open>The examples evaluated\<close>

lemma example_fetch [simp]: "fetch (exampleRuntime net) = net"
  "toLowerCase (exampleRuntime net) = asciiLower" "toUpperCase (exampleRuntime net) = asciiUpper"
  "JSON_parse (exampleRuntime net) = exampleParse"
  "writeCritiques (exampleRuntime net) = (\<lambda>n content. None)"
  "nullReadMessage (exampleRuntime net) = js ''null is not an object''"
  "notPrimitiveMessage (exampleRuntime net) = js ''No default value''"
  by (simp_all add: exampleRuntime_def)

lemma chatBody_content:
  "ok (okResponse (chatBody c))" "res_json (okResponse (chatBody c)) = Inr (chatBody c)"
  "\<not> isNullish (chatBody c)" "contentOf (chatBody c) = c"
  by (simp_all add: ok_def okResponse_def chatBody_def isNullish_def contentOf_def optProp_def)

lemma answeringNet_string:
  "callOpenRouter (exampleRuntime (answeringNet (JStr s))) sent m prompt options
     = (Inr s, sent @ [requestFor m prompt options])"
proof -
  have "fst (callOpenRouter (exampleRuntime (answeringNet (JStr s))) sent m prompt options) = Inr s"
    by (simp add: callOpenRouter_body [where res = "okResponse (chatBody (JStr s))"]
        answeringNet_def chatBody_content extractContent_string)
  then show ?thesis
    by (metis callOpenRouter_sent prod.collapse)
qed

lemma failingNet_call:
  "callOpenRouter (exampleRuntime failingNet) sent m prompt options
     = (Inl (RequestFailure m 500 (js ''Internal Server Error'') (js ''overloaded'')),
        sent @ [requestFor m prompt options])"
proof -
  have "fst (callOpenRouter (exampleRuntime failingNet) sent m prompt options)
          = Inl (RequestFailure m (status errorResponse) (statusText errorResponse) (res_text errorResponse))"
    by (rule callOpenRouter_status) (simp_all add: failingNet_def ok_def errorResponse_def)
  then show ?thesis
    by (metis (no_types, lifting) callOpenRouter_sent prod.collapse errorResponse_def
        response.select_convs)
qed

theorem fragments_without_text_witness:
  "fst (callOpenRouter
         (exampleRuntime (answeringNet
            (JArr [JObj [(js ''text'', JStr (js ''a''))], JObj [], JObj [(js ''text'', JNull)]])))
         [] (js ''a/b'') (js ''hi'') None)
     = Inr (js ''a'' @ [10, 10])"
proof -
  let ?parts = "[JObj [(js ''text'', JStr (js ''a''))], JObj [], JObj [(js ''text'', JNull)]]"
  have nn: "\<forall>p\<in>set ?parts. \<not> isNullish p" by (simp add: isNullish_def)
  have f: "fetch (exampleRuntime (answeringNet (JArr ?parts))) (length ([]::request list))
        (requestFor (js ''a/b'') (js ''hi'') None) = Inr (okResponse (chatBody (JArr ?parts)))"
    by (simp add: answeringNet_def)
  have conv: "\<forall>p\<in>set ?parts. fragmentText p \<noteq> None"
    by (simp add: fragmentText_def isNullish_def)
  from fragments_without_text [OF f chatBody_content(1) chatBody_content(2) chatBody_content(3)
      chatBody_content(4) nn] conv
  have "fst (callOpenRouter (exampleRuntime (answeringNet (JArr ?parts))) [] (js ''a/b'') (js ''hi'') None)
          = Inr (join [10] (map (\<lambda>p. the (fragmentText p)) ?parts))"
    by blast
  then show ?thesis by (simp add: fragmentText_def isNullish_def)
qed

theorem solution_membership_test_witness:
  "js ''a/b'' \<noteq> []
   \<and> \<not> solutionPresent (exampleRuntime (answeringNet (JStr (js ''<html></html>''))))
        (initialState blankSolutionFile) (js ''a/b'')
   \<and> files (solverStep (exampleRuntime (answeringNet (JStr (js ''<html></html>''))))
              (exampleConfig [js ''a/b''] []) (js ''a/b'') (initialState blankSolutionFile))
        (solutionPath (js ''a/b'')) = Some (js ''<html></html>'')"
proof -
  let ?rt = "exampleRuntime (answeringNet (JStr (js ''<html></html>'')))"
  let ?st = "initialState blankSolutionFile"
  have m: "js ''a/b'' \<noteq> []" by simp
  have absent: "\<not> solutionPresent ?rt ?st (js ''a/b'')"
    by (simp add: solutionPresent_def initialState_def blankSolutionFile_def trim_def isWhiteSpace_def)
  have call: "fst (callOpenRouter ?rt (calls ?st) (js ''a/b'')
      (SOLVER_PROMPT (exampleConfig [js ''a/b''] [])) (Some 12000)) = Inr (js ''<html></html>'')"
    by (simp add: answeringNet_string)
  from solution_membership_test [OF m, of ?rt "exampleConfig [js ''a/b''] []" ?st] absent call
  have "files (solverStep ?rt (exampleConfig [js ''a/b''] []) (js ''a/b'') ?st)
          (solutionPath (js ''a/b'')) = Some (js ''<html></html>'')"
    by blast
  with m absent show ?thesis by blast
qed

section \<open>Properties of the load\<close>

text \<open>The keys of the elements of a list that the load indexes.\<close>

lemma indexPairs_grows: "D \<subseteq> snd (indexPairs xs D)"
proof (induction xs arbitrary: D)
  case Nil
  show ?case by simp
next
  case (Cons c xs)
  have "insert k D \<subseteq> snd (indexPairs xs (insert k D))" for k
    by (rule Cons.IH)
  then have "D \<subseteq> snd (indexPairs xs (insert k D))" for k
    by blast
  with Cons.IH [of D] show ?case
    by (simp split: option.splits)
qed

lemma indexPairs_complete:
  "\<forall>c\<in>set xs. indexed c \<longrightarrow> loadedKey c \<noteq> None \<Longrightarrow>
   indexPairs xs D = (True, D \<union> {k. \<exists>c\<in>set xs. indexed c \<and> loadedKey c = Some k})"
proof (induction xs arbitrary: D)
  case Nil
  show ?case by simp
next
  case (Cons c xs)
  then have rest: "\<forall>c\<in>set xs. indexed c \<longrightarrow> loadedKey c \<noteq> None" by simp
  show ?case
  proof (cases "indexed c")
    case False
    with Cons.IH [OF rest, of D] show ?thesis by auto
  next
    case True
    with Cons.prems obtain k where k: "loadedKey c = Some k" by auto
    with True Cons.IH [OF rest, of "insert k D"] show ?thesis by auto
  qed
qed

lemma indexPairs_throws:
  assumes "\<forall>d\<in>set pre. indexed d \<longrightarrow> loadedKey d \<noteq> None" "indexed c" "loadedKey c = None"
  shows "indexPairs (pre @ c # post) D
           = (False, D \<union> {k. \<exists>d\<in>set pre. indexed d \<and> loadedKey d = Some k})"
  using assms(1)
proof (induction pre arbitrary: D)
  case Nil
  with assms(2,3) show ?case by simp
next
  case (Cons d pre)
  then have rest: "\<forall>d\<in>set pre. indexed d \<longrightarrow> loadedKey d \<noteq> None" by simp
  show ?case
  proof (cases "indexed d")
    case False
    with Cons.IH [OF rest, of D] show ?thesis by auto
  next
    case True
    with Cons.prems obtain k where k: "loadedKey d = Some k" by auto
    with True Cons.IH [OF rest, of "insert k D"] show ?thesis by auto
  qed
qed

lemma indexPairs_finished:
  "indexPairs xs D = (True, D') \<Longrightarrow>
   \<forall>c\<in>set xs. indexed c \<longrightarrow> (\<exists>k. loadedKey c = Some k \<and> k \<in> D')"
proof (induction xs arbitrary: D)
  case Nil
  show ?case by simp
next
  case (Cons c xs)
  show ?case
  proof (cases "indexed c")
    case False
    with Cons.prems have "indexPairs xs D = (True, D')" by simp
    from Cons.IH [OF this] False show ?thesis by simp
  next
    case True
    with Cons.prems obtain k where k: "loadedKey c = Some k" "indexPairs xs (insert k D) = (True, D')"
      by (auto split: option.splits)
    from indexPairs_grows [of "insert k D" xs] k(2) have "k \<in> D'" by auto
    with Cons.IH [OF k(2)] k(1) show ?thesis by simp
  qed
qed

lemma startRun_fields [simp]:
  "critiques (startRun rt fs) = []" "donePairs (startRun rt fs) = {}"
  "calls (startRun rt fs) = []" "solutions (startRun rt fs) = []"
  "logged (startRun rt fs) = [(LOG, RunStarted), (LOG, WroteMeta)]"
  "files (startRun rt fs) = fs(metaPath \<mapsto> metaJson rt)"
  by (simp_all add: startRun_def initialState_def Let_def)

lemma paths_differ [simp]: "critiquesPath \<noteq> metaPath" "metaPath \<noteq> critiquesPath"
  by (simp_all add: metaPath_def critiquesPath_def)

lemma loadCritiques_absent:
  "files st critiquesPath = None \<Longrightarrow> loadCritiques rt st = st"
  by (simp add: loadCritiques_def)

lemma loadCritiques_unparsable:
  assumes "files st critiquesPath = Some content" "JSON_parse rt content = Inl msg"
  shows "loadCritiques rt st = (logTo WARN (CouldNotParse msg) st)\<lparr> critiques := [] \<rparr>"
  using assms by (simp add: loadCritiques_def)

lemma loadCritiques_not_array:
  assumes "files st critiquesPath = Some content" "JSON_parse rt content = Inr v" "\<forall>xs. v \<noteq> JArr xs"
  shows "loadCritiques rt st = st"
  using assms by (cases v) (simp_all add: loadCritiques_def)

lemma loadCritiques_array:
  assumes "files st critiquesPath = Some content" "JSON_parse rt content = Inr (JArr xs)"
    and "\<forall>c\<in>set xs. indexed c \<longrightarrow> loadedKey c \<noteq> None"
  shows "critiques (loadCritiques rt st) = xs"
    and "donePairs (loadCritiques rt st)
           = donePairs st \<union> {k. \<exists>c\<in>set xs. indexed c \<and> loadedKey c = Some k}"
    and "logged (loadCritiques rt st) = logged st @ [(LOG, LoadedExisting (length xs))]"
  using assms(1,2) indexPairs_complete [OF assms(3), of "donePairs st"]
  by (simp_all add: loadCritiques_def)

lemma loadCritiques_unprintable:
  assumes "files st critiquesPath = Some content" "JSON_parse rt content = Inr (JArr (pre @ c # post))"
    and "\<forall>d\<in>set pre. indexed d \<longrightarrow> loadedKey d \<noteq> None" "indexed c" "loadedKey c = None"
  shows "critiques (loadCritiques rt st) = []"
    and "donePairs (loadCritiques rt st)
           = donePairs st \<union> {k. \<exists>d\<in>set pre. indexed d \<and> loadedKey d = Some k}"
    and "logged (loadCritiques rt st) = logged st @ [(WARN, CouldNotParse (notPrimitiveMessage rt))]"
  using assms(1,2) indexPairs_throws [OF assms(3,4,5), of post "donePairs st"]
  by (simp_all add: loadCritiques_def)

lemma loadCritiques_other_fields [simp]:
  "files (loadCritiques rt st) = files st" "calls (loadCritiques rt st) = calls st"
  "solutions (loadCritiques rt st) = solutions st"
  by (simp_all add: loadCritiques_def split: option.splits sum.splits jsval.splits prod.splits bool.splits)

lemma loadCritiques_index:
  assumes "critiques st = []"
  shows "\<forall>c\<in>set (critiques (loadCritiques rt st)). indexed c \<longrightarrow>
           (\<exists>k. loadedKey c = Some k \<and> k \<in> donePairs (loadCritiques rt st))"
proof (cases "\<exists>content xs D'. files st critiquesPath = Some content
      \<and> JSON_parse rt content = Inr (JArr xs) \<and> indexPairs xs (donePairs st) = (True, D')")
  case True
  then obtain content xs D' where a: "files st critiquesPath = Some content"
    "JSON_parse rt content = Inr (JArr xs)" "indexPairs xs (donePairs st) = (True, D')"
    by blast
  then have "critiques (loadCritiques rt st) = xs" "donePairs (loadCritiques rt st) = D'"
    by (simp_all add: loadCritiques_def)
  with indexPairs_finished [OF a(3)] show ?thesis by simp
next
  case False
  then have "critiques (loadCritiques rt st) = []"
    using assms
    by (auto simp: loadCritiques_def split: option.splits sum.splits jsval.splits prod.splits bool.splits)
  then show ?thesis by simp
qed




section \<open>Properties of a whole run\<close>

lemma solverStep_critiques:
  "critiques (solverStep rt cfg m st) = critiques st"
  "donePairs (solverStep rt cfg m st) = donePairs st"
  by (simp_all add: solverStep_def generateSolution_critiques Let_def split: option.splits)

lemma solverLoop_Nil [simp]: "solverLoop rt cfg [] st = st"
  by (simp add: solverLoop_def)

lemma solverLoop_Cons [simp]:
  "solverLoop rt cfg (m # ms) st = solverLoop rt cfg ms (solverStep rt cfg m st)"
  by (simp add: solverLoop_def)

lemma solverLoop_append:
  "solverLoop rt cfg (ms @ ns) st = solverLoop rt cfg ns (solverLoop rt cfg ms st)"
  by (simp add: solverLoop_def)

lemma solverLoop_critiques:
  "critiques (solverLoop rt cfg ms st) = critiques st \<and> donePairs (solverLoop rt cfg ms st) = donePairs st"
  by (induction ms arbitrary: st) (simp_all add: solverStep_critiques)

lemma solverPhase_critiques:
  "critiques (solverPhase rt cfg st) = critiques st" "donePairs (solverPhase rt cfg st) = donePairs st"
  by (simp_all add: solverPhase_def solverLoop_critiques)

lemma main_eq: "main rt cfg fs = logTo LOG (Done (length (critiques (judgePhase rt cfg (solved rt cfg fs)))))
    (judgePhase rt cfg (solved rt cfg fs))"
  by (simp add: main_def solved_def loaded_def Let_def)

lemma loaded_index:
  "\<forall>c\<in>set (critiques (loaded rt fs)). indexed c \<longrightarrow>
     (\<exists>k. loadedKey c = Some k \<and> k \<in> donePairs (loaded rt fs))"
  unfolding loaded_def by (rule loadCritiques_index) simp

lemma judgeLoop_new_keys:
  "\<exists>new. critiques (judgeLoop rt cfg ps st) = critiques st @ new
     \<and> (\<forall>c\<in>set new. \<exists>k. loadedKey c = Some k \<and> k \<in> donePairs (judgeLoop rt cfg ps st)
            \<and> k \<notin> donePairs st)
     \<and> donePairs st \<subseteq> donePairs (judgeLoop rt cfg ps st)
     \<and> (\<forall>c\<in>set new. \<exists>p\<in>set ps. isCritiqueOf c p)"
proof -
  let ?js = "judgedPairs rt cfg ps st"
  from judgeLoop_effect [of rt cfg ps st] obtain new where new:
    "critiques (judgeLoop rt cfg ps st) = critiques st @ new"
    "\<forall>c\<in>set new. \<exists>p\<in>set ?js. isCritiqueOf c p"
    "donePairs (judgeLoop rt cfg ps st) = donePairs st \<union> keyOfPair ` set ?js"
    by blast
  note keys = judgedPairs_keys [of rt cfg ps st]
  have "\<exists>k. loadedKey c = Some k \<and> k \<in> donePairs (judgeLoop rt cfg ps st) \<and> k \<notin> donePairs st"
    if "c \<in> set new" for c
  proof -
    from new(2) that obtain p where p: "p \<in> set ?js" "isCritiqueOf c p" by blast
    from p(1) keys have "keyOfPair p \<notin> donePairs st" by blast
    with p new(3) isCritiqueOf_key [OF p(2)] show ?thesis by auto
  qed
  moreover have "\<forall>c\<in>set new. \<exists>p\<in>set ps. isCritiqueOf c p"
    using new(2) keys by blast
  ultimately show ?thesis using new by (intro exI [of _ new]) auto
qed

text \<open>
  What holds of the resume in every run, whatever the disk does: the collection
  loaded at startup stays as the first part of the collection; no appended Critique
  has a key of the resume index built by the load, in particular not the key of a
  loaded record whose \<open>solverModel\<close> and \<open>judgeModel\<close> are truthy; the judge phase
  sends its requests for pairs of pairwise different keys, one request each, and
  every appended Critique is the Critique of one of these pairs.
\<close>

lemma loaded_pairs_not_judged:
  "take (length (critiques (loaded rt fs))) (critiques (main rt cfg fs)) = critiques (loaded rt fs)
   \<and> (\<forall>k\<in>donePairs (loaded rt fs).
         Some k \<notin> loadedKey ` set (appended (length (critiques (loaded rt fs))) (main rt cfg fs)))
   \<and> (\<forall>c\<in>set (critiques (loaded rt fs)). indexed c \<longrightarrow>
         loadedKey c \<notin> loadedKey ` set (appended (length (critiques (loaded rt fs))) (main rt cfg fs)))
   \<and> (\<exists>judged. distinct (map keyOfPair judged)
         \<and> calls (main rt cfg fs) = calls (solved rt cfg fs) @ map (judgeRequest cfg) judged
         \<and> (\<forall>c\<in>set (appended (length (critiques (loaded rt fs))) (main rt cfg fs)).
               \<exists>p\<in>set judged. isCritiqueOf c p))"
proof -
  let ?st = "logTo LOG JudgePhase (solved rt cfg fs)"
  let ?ps = "pairsOf (Object_entries (solutions (solved rt cfg fs))) (JUDGE_MODELS cfg)"
  let ?js = "judgedPairs rt cfg ?ps ?st"
  have crit: "critiques ?st = critiques (loaded rt fs)" and don: "donePairs ?st = donePairs (loaded rt fs)"
    by (simp_all add: solved_def solverPhase_critiques)
  from judgeLoop_effect [of rt cfg ?ps ?st] obtain new where new:
    "critiques (judgeLoop rt cfg ?ps ?st) = critiques ?st @ new"
    "\<forall>c\<in>set new. \<exists>p\<in>set ?js. isCritiqueOf c p"
    "calls (judgeLoop rt cfg ?ps ?st) = calls ?st @ map (judgeRequest cfg) ?js"
    by blast
  have fin: "critiques (main rt cfg fs) = critiques (loaded rt fs) @ new"
    "calls (main rt cfg fs) = calls (solved rt cfg fs) @ map (judgeRequest cfg) ?js"
    using new crit by (simp_all add: main_eq judgePhase_flat)
  have app: "appended (length (critiques (loaded rt fs))) (main rt cfg fs) = new"
    by (simp add: appended_def fin)
  from judgedPairs_keys [of rt cfg ?ps ?st]
  have d: "distinct (map keyOfPair ?js)" and i: "keyOfPair ` set ?js \<inter> donePairs (loaded rt fs) = {}"
    using don by simp_all
  have 1: "take (length (critiques (loaded rt fs))) (critiques (main rt cfg fs)) = critiques (loaded rt fs)"
    by (simp add: fin)
  have 3: "\<forall>k\<in>donePairs (loaded rt fs). Some k \<notin> loadedKey ` set new"
  proof (intro ballI notI)
    fix k assume k: "k \<in> donePairs (loaded rt fs)" "Some k \<in> loadedKey ` set new"
    then obtain c where c: "c \<in> set new" "loadedKey c = Some k" by auto
    with new(2) obtain p where p: "p \<in> set ?js" "isCritiqueOf c p" by blast
    from isCritiqueOf_key [OF p(2)] c(2) have "keyOfPair p = k" by simp
    with p(1) k(1) i show False by blast
  qed
  have 4: "\<forall>c\<in>set (critiques (loaded rt fs)). indexed c \<longrightarrow> loadedKey c \<notin> loadedKey ` set new"
    using 3 loaded_index [of rt fs] by metis
  have 5: "\<exists>judged. distinct (map keyOfPair judged)
         \<and> calls (main rt cfg fs) = calls (solved rt cfg fs) @ map (judgeRequest cfg) judged
         \<and> (\<forall>c\<in>set new. \<exists>p\<in>set judged. isCritiqueOf c p)"
    using d fin(2) new(2) by blast
  from 1 3 4 5 show ?thesis unfolding app by blast
qed


lemma setProp_replace_keys:
  "map fst (map (\<lambda>(k', v'). if k' = k then (k', v) else (k', v')) obj) = map fst obj"
  by (induction obj) auto

lemma setProp_keys:
  "k \<noteq> js ''__proto__'' \<Longrightarrow>
   map fst (setProp obj k v) = (if k \<in> set (map fst obj) then map fst obj else map fst obj @ [k])"
  using setProp_replace_keys [of k v obj] by (simp add: setProp_def del: map_map)

lemma setProp_keys_subset: "fst ` set (setProp obj k v) \<subseteq> insert k (fst ` set obj)"
proof (cases "k = js ''__proto__''")
  case True
  then show ?thesis by (simp add: setProp_def subset_insertI)
next
  case False
  have "set (map fst (setProp obj k v)) \<subseteq> insert k (set (map fst obj))"
    unfolding setProp_keys [OF False] by auto
  then show ?thesis by simp
qed

lemma Object_entries_set: "set (Object_entries obj) = set obj"
  by (auto simp: Object_entries_def)

lemma Object_entries_plain:
  "\<forall>k\<in>set (map fst obj). \<not> isArrayIndex k \<Longrightarrow> Object_entries obj = obj"
proof -
  assume a: "\<forall>k\<in>set (map fst obj). \<not> isArrayIndex k"
  then have "filter (\<lambda>kv. isArrayIndex (fst kv)) obj = []"
    by (auto simp: filter_empty_conv)
  moreover from a have "filter (\<lambda>kv. \<not> isArrayIndex (fst kv)) obj = obj"
    by (auto simp: filter_id_conv)
  ultimately show ?thesis by (simp add: Object_entries_def)
qed

lemma solverStep_solutions_subset:
  "fst ` set (solutions (solverStep rt cfg m st)) \<subseteq> insert m (fst ` set (solutions st))"
proof (cases "m = []")
  case True
  then show ?thesis by (auto simp: solverStep_empty)
next
  case m: False
  show ?thesis
  proof (cases "solutionPresent rt st m")
    case True
    with m show ?thesis using setProp_keys_subset by (simp add: solverStep_present)
  next
    case False
    let ?st = "if files st (solutionPath m) = None then st else logTo WARN (ExistingInvalid m) st"
    have s: "solutions ?st = solutions st" "calls ?st = calls st" by simp_all
    show ?thesis
    proof (cases "fst (callOpenRouter rt (calls st) m (SOLVER_PROMPT cfg) (Some 12000))")
      case (Inl err)
      then show ?thesis
        using generateSolution_failed(2) [of rt ?st m cfg err] s
        by (auto simp: solverStep_absent [OF m False])
    next
      case (Inr html)
      then show ?thesis
        using generateSolution_ok(2) [of rt ?st m cfg html] s setProp_keys_subset
        by (simp add: solverStep_absent [OF m False])
    qed
  qed
qed

lemma solverLoop_solutions_subset:
  "fst ` set (solutions (solverLoop rt cfg ms st)) \<subseteq> set ms \<union> fst ` set (solutions st)"
proof (induction ms arbitrary: st)
  case Nil
  show ?case by simp
next
  case (Cons m ms)
  from Cons.IH [of "solverStep rt cfg m st"] solverStep_solutions_subset [of rt cfg m st]
  show ?case by auto
qed

lemma solverStep_failed:
  assumes "m \<noteq> []" "\<not> solutionPresent rt st m"
    and "fst (callOpenRouter rt (calls st) m (SOLVER_PROMPT cfg) (Some 12000)) = Inl err"
  shows "solutions (solverStep rt cfg m st) = solutions st"
    and "files (solverStep rt cfg m st) = files st"
proof -
  let ?st = "if files st (solutionPath m) = None then st else logTo WARN (ExistingInvalid m) st"
  have s: "solutions ?st = solutions st" "calls ?st = calls st" "files ?st = files st" by simp_all
  from assms(3) s show "solutions (solverStep rt cfg m st) = solutions st"
    using generateSolution_failed(2) [of rt ?st m cfg err]
    by (simp add: solverStep_absent [OF assms(1,2)])
  from assms(3) s show "files (solverStep rt cfg m st) = files st"
    using generateSolution_failed(1) [of rt ?st m cfg err]
    by (simp add: solverStep_absent [OF assms(1,2)])
qed

text \<open>
  C5. At any point of the solver phase (the models before have been handled, the
  model \<open>m\<close> is next, it is listed once, and no usable file exists for it): if its
  completion call fails, the turn changes neither the Solutions in memory nor the
  files; the loop goes on with the remaining models; the Solutions the phase ends
  with hold none for \<open>m\<close>; no pair of the judge phase has \<open>m\<close> as solver; and no
  Critique the judge phase appends names \<open>m\<close> as solver.
\<close>

theorem failed_solver_dropped:
  assumes models: "SOLVER_MODELS cfg = pre @ m # post" and once: "m \<notin> set pre" "m \<notin> set post"
    and fresh: "m \<notin> fst ` set (solutions st0)"
    and st: "st = solverLoop rt cfg pre (logTo LOG SolverPhase st0)"
    and m: "m \<noteq> []" and absent: "\<not> solutionPresent rt st m"
    and fail: "fst (callOpenRouter rt (calls st) m (SOLVER_PROMPT cfg) (Some 12000)) = Inl err"
  shows "solverPhase rt cfg st0 = solverLoop rt cfg post (solverStep rt cfg m st)
     \<and> solutions (solverStep rt cfg m st) = solutions st
     \<and> files (solverStep rt cfg m st) = files st
     \<and> m \<notin> fst ` set (solutions (solverPhase rt cfg st0))
     \<and> (\<forall>p\<in>set (pairsOf (Object_entries (solutions (solverPhase rt cfg st0))) (JUDGE_MODELS cfg)).
           fst (fst p) \<noteq> m)
     \<and> (\<forall>c\<in>set (appended (length (critiques (solverPhase rt cfg st0)))
                    (judgePhase rt cfg (solverPhase rt cfg st0))).
           lookupProp c (js ''solverModel'') \<noteq> JStr m)"
proof -
  let ?fin = "solverPhase rt cfg st0"
  let ?ps = "pairsOf (Object_entries (solutions ?fin)) (JUDGE_MODELS cfg)"
  have phase: "?fin = solverLoop rt cfg post (solverStep rt cfg m st)"
    by (simp add: solverPhase_def models solverLoop_append st)
  have step: "solutions (solverStep rt cfg m st) = solutions st"
    "files (solverStep rt cfg m st) = files st"
    using m absent fail by (rule solverStep_failed)+
  have "fst ` set (solutions st) \<subseteq> set pre \<union> fst ` set (solutions st0)"
    unfolding st using solverLoop_solutions_subset [of rt cfg pre "logTo LOG SolverPhase st0"] by simp
  with once fresh have "m \<notin> fst ` set (solutions st)" by blast
  with step have "m \<notin> fst ` set (solutions (solverStep rt cfg m st))" by simp
  with once solverLoop_solutions_subset [of rt cfg post "solverStep rt cfg m st"]
  have gone: "m \<notin> fst ` set (solutions ?fin)"
    unfolding phase by blast
  have pairs: "\<forall>p\<in>set ?ps. fst (fst p) \<noteq> m"
    using gone by (auto simp: pairsOf_def Object_entries_set)
  from judgeLoop_new_keys [of rt cfg ?ps "logTo LOG JudgePhase ?fin"] obtain new where new:
    "critiques (judgePhase rt cfg ?fin) = critiques ?fin @ new"
    "\<forall>c\<in>set new. \<exists>p\<in>set ?ps. isCritiqueOf c p"
    by (auto simp: judgePhase_flat)
  have "\<forall>c\<in>set new. lookupProp c (js ''solverModel'') \<noteq> JStr m"
  proof
    fix c assume "c \<in> set new"
    with new(2) obtain p where p: "p \<in> set ?ps" "isCritiqueOf c p" by blast
    from isCritiqueOf_fields [OF p(2)] pairs p(1) show "lookupProp c (js ''solverModel'') \<noteq> JStr m"
      by auto
  qed
  moreover have "appended (length (critiques ?fin)) (judgePhase rt cfg ?fin) = new"
    by (simp add: appended_def new)
  ultimately show ?thesis using phase step gone pairs by simp
qed

lemma solverStep_keys:
  assumes "plainKey m"
  shows "map fst (solutions (solverStep rt cfg m st))
     = (if obtainsSolution rt cfg m st
        then (if m \<in> set (map fst (solutions st)) then map fst (solutions st)
              else map fst (solutions st) @ [m])
        else map fst (solutions st))"
proof (cases "m = []")
  case True
  then show ?thesis by (simp add: solverStep_empty obtainsSolution_def)
next
  case m: False
  from assms have np: "m \<noteq> js ''__proto__''" by (simp add: plainKey_def)
  show ?thesis
  proof (cases "solutionPresent rt st m")
    case True
    with m show ?thesis
      by (simp add: solverStep_present setProp_keys [OF np] obtainsSolution_def del: map_map)
  next
    case False
    let ?st = "if files st (solutionPath m) = None then st else logTo WARN (ExistingInvalid m) st"
    have s: "solutions ?st = solutions st" "calls ?st = calls st" by simp_all
    show ?thesis
    proof (cases "fst (callOpenRouter rt (calls st) m (SOLVER_PROMPT cfg) (Some 12000))")
      case (Inl err)
      then have "\<not> obtainsSolution rt cfg m st"
        using False by (simp add: obtainsSolution_def callSucceeds_def)
      then show ?thesis
        using solverStep_failed(1) [OF m False Inl] by simp
    next
      case (Inr html)
      then have "obtainsSolution rt cfg m st"
        using m by (simp add: obtainsSolution_def callSucceeds_def)
      then show ?thesis
        using generateSolution_ok(2) [of rt ?st m cfg html] s Inr
        by (simp add: solverStep_absent [OF m False] setProp_keys [OF np] del: map_map)
    qed
  qed
qed

lemma firstOccurrences_append:
  "firstOccurrences seen (xs @ ys) = firstOccurrences (firstOccurrences seen xs) ys"
  by (simp add: firstOccurrences_def)

lemma solverLoop_keys:
  "\<forall>m\<in>set ms. plainKey m \<Longrightarrow>
   map fst (solutions (solverLoop rt cfg ms st))
     = firstOccurrences (map fst (solutions st)) (obtainedOrder rt cfg ms st)"
proof (induction ms arbitrary: st)
  case Nil
  show ?case by (simp add: firstOccurrences_def)
next
  case (Cons m ms)
  then have p: "plainKey m" and ps: "\<forall>m\<in>set ms. plainKey m" by simp_all
  have "firstOccurrences (map fst (solutions st)) (if obtainsSolution rt cfg m st then [m] else [])
          = map fst (solutions (solverStep rt cfg m st))"
    by (simp add: solverStep_keys [OF p] firstOccurrences_def del: map_map)
  with Cons.IH [OF ps, of "solverStep rt cfg m st"] show ?case
    by (simp add: firstOccurrences_append del: map_map)
qed

lemma firstOccurrences_set: "set (firstOccurrences seen xs) = set seen \<union> set xs"
proof -
  have "set (fold (\<lambda>x ks. if x \<in> set ks then ks else ks @ [x]) xs seen) = set seen \<union> set xs"
    by (induction xs arbitrary: seen) auto
  then show ?thesis by (simp add: firstOccurrences_def)
qed

lemma obtainedOrder_subset: "set (obtainedOrder rt cfg ms st) \<subseteq> set ms"
  by (induction ms arbitrary: st) auto

lemma pairsOf_product:
  "map (\<lambda>p. (fst (fst p), snd p)) (pairsOf entries judges) = List.product (map fst entries) judges"
  by (induction entries) (simp_all add: pairsOf_def comp_def)

text \<open>
  The load indexes every Critique-shaped record whose two model identifiers are not
  empty, so every Critique the program writes for such identifiers.
\<close>

lemma indexed_mkCritique: "indexed (mkCritique s slug j v x) \<longleftrightarrow> s \<noteq> [] \<and> j \<noteq> []"
  by (simp add: indexed_def mkCritique_def)

lemma critiqueShaped_indexed:
  assumes "critiqueShaped c" "lookupProp c (js ''solverModel'') \<noteq> JStr []"
    "lookupProp c (js ''judgeModel'') \<noteq> JStr []"
  shows "indexed c"
proof -
  from assms(1) obtain kvs s j where "c = JObj kvs"
    "lookupProp c (js ''solverModel'') = JStr s" "lookupProp c (js ''judgeModel'') = JStr j"
    by (auto simp: critiqueShaped_def isString_def split: jsval.splits)
  with assms(2,3) show ?thesis by (simp add: indexed_def)
qed

lemma visited_append [simp]: "visited (xs @ ys) = visited xs @ visited ys"
  by (simp add: visited_def)

lemma judgeStep_logged:
  "\<exists>l. logged (judgeStep rt cfg e j st) = logged st @ l \<and> visited l = [pairKey (fst e) j]"
  by (auto simp: judgeStep_def Let_def visited_def split: sum.splits option.splits)

lemma judgeLoop_logged:
  "\<exists>l. logged (judgeLoop rt cfg ps st) = logged st @ l \<and> visited l = map keyOfPair ps"
proof (induction ps arbitrary: st)
  case Nil
  show ?case by (simp add: visited_def)
next
  case (Cons p ps)
  let ?st = "judgeStep rt cfg (fst p) (snd p) st"
  from judgeStep_logged [of rt cfg "fst p" "snd p" st] obtain l1 where
    l1: "logged ?st = logged st @ l1" "visited l1 = [keyOfPair p]"
    by (auto simp: keyOfPair_def)
  from Cons.IH [of ?st] obtain l2 where
    l2: "logged (judgeLoop rt cfg ps ?st) = logged ?st @ l2" "visited l2 = map keyOfPair ps"
    by blast
  from l1 l2 show ?case
    by (intro exI [of _ "l1 @ l2"]) simp
qed

lemma judgePhase_visits:
  "visited (drop (length (logged st)) (logged (judgePhase rt cfg st)))
     = map keyOfPair (pairsOf (Object_entries (solutions st)) (JUDGE_MODELS cfg))"
proof -
  from judgeLoop_logged
    [of rt cfg "pairsOf (Object_entries (solutions st)) (JUDGE_MODELS cfg)" "logTo LOG JudgePhase st"]
  obtain l where "logged (judgePhase rt cfg st) = logged st @ [(LOG, JudgePhase)] @ l"
    "visited l = map keyOfPair (pairsOf (Object_entries (solutions st)) (JUDGE_MODELS cfg))"
    by (auto simp: judgePhase_flat)
  then show ?thesis by (simp add: visited_def)
qed

text \<open>
  C8. Let no configured solver identifier be an array index or \<open>__proto__\<close>, and let
  the solver phase start with no Solution in memory. Then the nested loops of the
  judge phase handle, one after the other, the pairs of the Solutions in memory with
  the configured judges: outer loop over the Solutions in the order they are held,
  inner loop over the judge list in its order. The Solutions are held in the order in
  which the solver phase first obtained them (from disk or from a call), so the pairs
  are the product of that order with the judge list, and the log of the judge phase
  shows their keys in that order; every pair has a solver that obtained a Solution.
\<close>

theorem judge_phase_order:
  assumes plain: "\<forall>m\<in>set (SOLVER_MODELS cfg). plainKey m" and empty: "solutions st0 = []"
  shows "judgePhase rt cfg (solverPhase rt cfg st0)
           = judgeLoop rt cfg (pairsOf (solutions (solverPhase rt cfg st0)) (JUDGE_MODELS cfg))
               (logTo LOG JudgePhase (solverPhase rt cfg st0))
     \<and> map fst (solutions (solverPhase rt cfg st0))
         = firstOccurrences [] (obtainedOrder rt cfg (SOLVER_MODELS cfg) (logTo LOG SolverPhase st0))
     \<and> map (\<lambda>p. (fst (fst p), snd p))
           (pairsOf (solutions (solverPhase rt cfg st0)) (JUDGE_MODELS cfg))
         = List.product
             (firstOccurrences [] (obtainedOrder rt cfg (SOLVER_MODELS cfg) (logTo LOG SolverPhase st0)))
             (JUDGE_MODELS cfg)
     \<and> visited (drop (length (logged (solverPhase rt cfg st0)))
                 (logged (judgePhase rt cfg (solverPhase rt cfg st0))))
         = map (\<lambda>(solver, judge). pairKey solver judge)
             (List.product
                (firstOccurrences [] (obtainedOrder rt cfg (SOLVER_MODELS cfg) (logTo LOG SolverPhase st0)))
                (JUDGE_MODELS cfg))
     \<and> (\<forall>p\<in>set (pairsOf (solutions (solverPhase rt cfg st0)) (JUDGE_MODELS cfg)).
           fst (fst p) \<in> set (obtainedOrder rt cfg (SOLVER_MODELS cfg) (logTo LOG SolverPhase st0)))"
proof -
  let ?fin = "solverPhase rt cfg st0"
  let ?ord = "obtainedOrder rt cfg (SOLVER_MODELS cfg) (logTo LOG SolverPhase st0)"
  let ?ps = "pairsOf (solutions ?fin) (JUDGE_MODELS cfg)"
  have keys: "map fst (solutions ?fin) = firstOccurrences [] ?ord"
    using solverLoop_keys [OF plain, of rt cfg "logTo LOG SolverPhase st0"] empty
    by (simp add: solverPhase_def)
  have "set (map fst (solutions ?fin)) \<subseteq> set (SOLVER_MODELS cfg)"
    unfolding keys using obtainedOrder_subset [of rt cfg "SOLVER_MODELS cfg"]
    by (simp add: firstOccurrences_set)
  with plain have "\<forall>k\<in>set (map fst (solutions ?fin)). \<not> isArrayIndex k"
    by (auto simp: plainKey_def)
  then have entries: "Object_entries (solutions ?fin) = solutions ?fin"
    by (rule Object_entries_plain)
  then have 1: "judgePhase rt cfg ?fin = judgeLoop rt cfg ?ps (logTo LOG JudgePhase ?fin)"
    by (simp add: judgePhase_flat)
  have 3: "map (\<lambda>p. (fst (fst p), snd p)) ?ps
         = List.product (firstOccurrences [] ?ord) (JUDGE_MODELS cfg)"
    by (simp add: pairsOf_product keys del: map_map)
  have "map keyOfPair ?ps = map (\<lambda>(solver, judge). pairKey solver judge) (map (\<lambda>p. (fst (fst p), snd p)) ?ps)"
    by (simp add: keyOfPair_def)
  then have 4: "visited (drop (length (logged ?fin)) (logged (judgePhase rt cfg ?fin)))
         = map (\<lambda>(solver, judge). pairKey solver judge)
             (List.product (firstOccurrences [] ?ord) (JUDGE_MODELS cfg))"
    using judgePhase_visits [of ?fin rt cfg] by (simp only: entries 3)
  have "\<forall>p\<in>set ?ps. fst (fst p) \<in> set (map fst (solutions ?fin))"
    by (auto simp: pairsOf_def)
  then have 5: "\<forall>p\<in>set ?ps. fst (fst p) \<in> set ?ord"
    unfolding keys by (simp add: firstOccurrences_set)
  from 1 keys 3 4 5 show ?thesis by blast
qed

section \<open>The properties on example runs\<close>

text \<open>The identifiers of the shipped configuration meet the conditions used above.\<close>

lemma MODELS_wellformed:
  "\<forall>m\<in>set MODELS. plainKey m \<and> m \<noteq> []" "distinct MODELS"
  by (simp_all add: MODELS_def plainKey_def isArrayIndex_def isDigit_def)

lemma selectiveNet_call:
  "callOpenRouter (exampleRuntime selectiveNet) sent m prompt options
     = (if m = js ''c/d''
        then Inl (RequestFailure m 500 (js ''Internal Server Error'') (js ''overloaded''))
        else Inr (js ''<html>''),
        sent @ [requestFor m prompt options])"
proof (cases "m = js ''c/d''")
  case True
  have "fst (callOpenRouter (exampleRuntime selectiveNet) sent m prompt options)
          = Inl (RequestFailure m (status errorResponse) (statusText errorResponse)
                  (res_text errorResponse))"
    using True
    by (intro callOpenRouter_status)
      (simp_all add: selectiveNet_def ok_def errorResponse_def requestFor_def)
  then have "fst (callOpenRouter (exampleRuntime selectiveNet) sent m prompt options)
          = Inl (RequestFailure m 500 (js ''Internal Server Error'') (js ''overloaded''))"
    by (simp add: errorResponse_def)
  then show ?thesis
    using True callOpenRouter_sent [of "exampleRuntime selectiveNet" sent m prompt options]
    by (simp add: prod_eq_iff)
next
  case False
  have "fst (callOpenRouter (exampleRuntime selectiveNet) sent m prompt options)
          = extractContent (exampleRuntime selectiveNet) m (chatBody (JStr (js ''<html>'')))"
    using False
    by (intro callOpenRouter_body [where res = "okResponse (chatBody (JStr (js ''<html>'')))"])
      (simp_all add: selectiveNet_def chatBody_content requestFor_def)
  then have "fst (callOpenRouter (exampleRuntime selectiveNet) sent m prompt options)
          = Inr (js ''<html>'')"
    by (simp add: extractContent_string chatBody_content)
  then show ?thesis
    using False callOpenRouter_sent [of "exampleRuntime selectiveNet" sent m prompt options]
    by (simp add: prod_eq_iff)
qed

lemmas run_defs =
  main_def startRun_def initialState_def loadCritiques_def loaded_def solved_def
  exampleParse_def mixedCritiquesText_def quoted_def critiquesPath_def metaPath_def
  exampleConfig_def solverPhase_def solverLoop_def solverStep_def solutionPath_def slugify_def
  generateSolution_def judgePhase_def judgeSolver_def judgeStep_def judgeLoop_def pairsOf_def
  Object_entries_def isArrayIndex_def isDigit_def setProp_def pairKey_def unprintableCritiquesText_def
  indexed_def loadedKey_def Let_def logTo_def pushCritique_def saveCritiques_def catchJudge_def
  parseVerdict_def mkCritique_def
  trim_def isWhiteSpace_def consLine_def asciiUpper_def asciiLower_def appended_def
  emptyDisk_def oneSolution_def resumedDisk_def selectiveNet_call
  solutionPresent_def plainKey_def

text \<open>The completion client does not look at the disk.\<close>

lemma mapParts_disk: "mapParts (rt\<lparr> writeCritiques := w \<rparr>) parts = mapParts rt parts"
  by (induction parts) (simp_all add: partText_def Let_def)

lemma callOpenRouter_disk:
  "callOpenRouter (rt\<lparr> writeCritiques := w \<rparr>) sent m prompt options
     = callOpenRouter rt sent m prompt options"
  by (simp add: callOpenRouter_def extractContent_def mapParts_disk Let_def
      split: sum.splits jsval.splits option.splits)

text \<open>
  C1 fails on the program. The endpoint answers the solver a/b and the judge e/f;
  the disk rejects the write of the collection that follows the judgment, and accepts
  the write of the \<open>catch\<close>. The run sends one judge request, and appends two Critiques
  for the pair a/b and e/f: the judgment, then a Critique with verdict ERROR. The
  keys of the appended Critiques are not pairwise different.
\<close>

theorem rejected_write_appends_twice:
  "map loadedKey
     (appended 0 (main (rejectingRuntime selectiveNet) (exampleConfig [js ''a/b''] [js ''e/f''])
        Map.empty))
     = [Some (js ''a/b|e/f''), Some (js ''a/b|e/f'')]
   \<and> map (\<lambda>c. lookupProp c (js ''verdict''))
       (appended 0 (main (rejectingRuntime selectiveNet) (exampleConfig [js ''a/b''] [js ''e/f''])
          Map.empty))
     = [JStr (js ''NO''), JStr (js ''ERROR'')]
   \<and> map req_model
       (calls (main (rejectingRuntime selectiveNet) (exampleConfig [js ''a/b''] [js ''e/f''])
          Map.empty))
     = [js ''a/b'', js ''e/f'']"
  by (simp add: run_defs rejectingRuntime_def callOpenRouter_disk requestFor_def)


theorem failed_solver_dropped_witness:
  "js ''c/d'' \<notin> fst ` set (solutions (solverPhase (exampleRuntime selectiveNet)
        (exampleConfig [js ''a/b'', js ''c/d''] [js ''e/f'']) emptyDisk))
   \<and> map fst (solutions (solverPhase (exampleRuntime selectiveNet)
        (exampleConfig [js ''a/b'', js ''c/d''] [js ''e/f'']) emptyDisk)) = [js ''a/b'']"
proof -
  let ?rt = "exampleRuntime selectiveNet"
  let ?cfg = "exampleConfig [js ''a/b'', js ''c/d''] [js ''e/f'']"
  let ?st = "solverLoop ?rt ?cfg [js ''a/b''] (logTo LOG SolverPhase emptyDisk)"
  let ?err = "RequestFailure (js ''c/d'') 500 (js ''Internal Server Error'') (js ''overloaded'')"
  have models: "SOLVER_MODELS ?cfg = [js ''a/b''] @ js ''c/d'' # []"
    by (simp add: exampleConfig_def)
  have once: "js ''c/d'' \<notin> set [js ''a/b'']" "js ''c/d'' \<notin> set []" by simp_all
  have fresh: "js ''c/d'' \<notin> fst ` set (solutions emptyDisk)" by (simp add: run_defs)
  have m: "js ''c/d'' \<noteq> []" by simp
  have absent: "\<not> solutionPresent ?rt ?st (js ''c/d'')" by (simp add: run_defs)
  have fail: "fst (callOpenRouter ?rt (calls ?st) (js ''c/d'') (SOLVER_PROMPT ?cfg) (Some 12000))
                = Inl ?err"
    by (simp add: selectiveNet_call)
  have keys: "map fst (solutions (solverPhase ?rt ?cfg emptyDisk)) = [js ''a/b'']"
    by (simp add: run_defs)
  from failed_solver_dropped [OF models once fresh refl m absent fail] keys
  show ?thesis by blast
qed

theorem judge_phase_order_witness:
  "plainKey (js ''a/b'') \<and> plainKey (js ''c/d'')
   \<and> map (\<lambda>p. (fst (fst p), snd p))
        (pairsOf (solutions (solverPhase (exampleRuntime selectiveNet)
                    (exampleConfig [js ''a/b'', js ''c/d''] [js ''e/f'', js ''g/h'']) emptyDisk))
           (JUDGE_MODELS (exampleConfig [js ''a/b'', js ''c/d''] [js ''e/f'', js ''g/h''])))
      = [(js ''a/b'', js ''e/f''), (js ''a/b'', js ''g/h'')]"
proof -
  let ?rt = "exampleRuntime selectiveNet"
  let ?cfg = "exampleConfig [js ''a/b'', js ''c/d''] [js ''e/f'', js ''g/h'']"
  have p: "plainKey (js ''a/b'')" "plainKey (js ''c/d'')" by (simp_all add: run_defs)
  then have plain: "\<forall>m\<in>set (SOLVER_MODELS ?cfg). plainKey m" by (simp add: exampleConfig_def)
  have empty: "solutions emptyDisk = []" by (simp add: run_defs)
  have ord: "firstOccurrences [] (obtainedOrder ?rt ?cfg (SOLVER_MODELS ?cfg) (logTo LOG SolverPhase emptyDisk))
        = [js ''a/b'']"
    by (simp add: run_defs firstOccurrences_def obtainsSolution_def callSucceeds_def)
  from judge_phase_order [OF plain empty, of ?rt] ord p show ?thesis
    by (simp add: exampleConfig_def)
qed

end
